theory Spec2Isabelle
  imports Main "HOL-Library.Multiset"
begin

section \<open>Tabular data\<close>

text \<open>
  The parser works on cudf dataframes. A dataframe is modelled as a table: the ordered
  list of its column labels and the list of its rows, each row carrying its index label
  and its cells by column label. A cell holds a string, a number (the length column that
  the post-processing adds) or the null marker. A cell that a row does not hold reads as
  null. A series (one column taken out of a frame) is the list of its cells, in row order.
\<close>

datatype cell = Str string | Num int | Null

type_synonym series = "cell list"

type_synonym row = "nat \<times> (string \<rightharpoonup> cell)"

record dataframe =
  columns :: "string list"
  rows :: "row list"

text \<open>
  Failures are values. \<open>SchemaError c\<close> is the lookup of a column label \<open>c\<close> that the
  frame does not have (Python raises KeyError, or NameError from \<open>drop\<close>);
  \<open>AttributeError\<close> is the \<open>.str\<close> accessor used on a column that is not string data;
  \<open>ConfigurationError\<close> is a pattern that could not be loaded.
\<close>

datatype error = ConfigurationError | SchemaError string | AttributeError

definition bind_err :: "error + 'a \<Rightarrow> ('a \<Rightarrow> error + 'b) \<Rightarrow> error + 'b" where
  "bind_err m f = (case m of Inl e \<Rightarrow> Inl e | Inr x \<Rightarrow> f x)"

definition cell_at :: "row \<Rightarrow> string \<Rightarrow> cell" where
  "cell_at r c = (case snd r c of Some v \<Rightarrow> v | None \<Rightarrow> Null)"

definition nrows :: "dataframe \<Rightarrow> nat" where
  "nrows df = length (rows df)"

fun is_Num :: "cell \<Rightarrow> bool" where
  "is_Num (Num n) = True"
| "is_Num v = False"

text \<open>\<open>df[c]\<close>: the column \<open>c\<close> as a series.\<close>

definition getitem :: "dataframe \<Rightarrow> string \<Rightarrow> error + series" where
  "getitem df c =
     (if c \<in> set (columns df) then Inr (map (\<lambda>r. cell_at r c) (rows df))
      else Inl (SchemaError c))"

text \<open>
  \<open>df[c] = s\<close>: an existing column is replaced where it stands, a new one is appended.
  The series assigned here is always computed from the same frame, row for row.
\<close>

definition setitem :: "dataframe \<Rightarrow> string \<Rightarrow> series \<Rightarrow> dataframe" where
  "setitem df c s =
     \<lparr>columns = (if c \<in> set (columns df) then columns df else columns df @ [c]),
      rows = map (\<lambda>(r, v). (fst r, (snd r)(c \<mapsto> v))) (zip (rows df) s)\<rparr>"

text \<open>\<open>df[mask]\<close>: the rows whose mask entry is true, in their order.\<close>

definition mask_rows :: "dataframe \<Rightarrow> bool list \<Rightarrow> dataframe" where
  "mask_rows df m =
     \<lparr>columns = columns df, rows = map fst (filter snd (zip (rows df) m))\<rparr>"

text \<open>\<open>series == k\<close> and \<open>series != k\<close>; a null compares to null, which a mask reads as false.\<close>

definition eq_scalar :: "series \<Rightarrow> int \<Rightarrow> bool list" where
  "eq_scalar s k = map (\<lambda>v. v = Num k) s"

definition ne_scalar :: "series \<Rightarrow> int \<Rightarrow> bool list" where
  "ne_scalar s k = map (\<lambda>v. case v of Num n \<Rightarrow> n \<noteq> k | Str t \<Rightarrow> True | Null \<Rightarrow> False) s"

text \<open>\<open>df.empty\<close>: no rows or no columns.\<close>

definition df_empty :: "dataframe \<Rightarrow> bool" where
  "df_empty df = (rows df = [] \<or> columns df = [])"

text \<open>\<open>cudf.concat([a, b])\<close>: the rows of \<open>a\<close>, then the rows of \<open>b\<close>, over the union of the columns.\<close>

definition concat_frames :: "dataframe \<Rightarrow> dataframe \<Rightarrow> dataframe" where
  "concat_frames a b =
     \<lparr>columns = columns a @ filter (\<lambda>c. c \<notin> set (columns a)) (columns b),
      rows = rows a @ rows b\<rparr>"

text \<open>
  \<open>df.drop(labels)\<close> of the cudf release the parser was written for removes columns, one
  label after the other, and fails at the first label that is not a column.
\<close>

definition drop_columns :: "dataframe \<Rightarrow> string list \<Rightarrow> error + dataframe" where
  "drop_columns df labels =
     (case filter (\<lambda>c. c \<notin> set (columns df)) labels of
        c # cs \<Rightarrow> Inl (SchemaError c)
      | [] \<Rightarrow> Inr \<lparr>columns = filter (\<lambda>c. c \<notin> set labels) (columns df),
                  rows = map (\<lambda>r. (fst r, \<lambda>c. if c \<in> set labels then None else snd r c))
                           (rows df)\<rparr>)"

text \<open>\<open>df.fillna(v)\<close>: every null cell of every column becomes \<open>v\<close>.\<close>

definition fillna :: "dataframe \<Rightarrow> cell \<Rightarrow> dataframe" where
  "fillna df v =
     \<lparr>columns = columns df,
      rows = map (\<lambda>r. (fst r, \<lambda>c. if c \<in> set (columns df) \<and> cell_at r c = Null
                                   then Some v else snd r c)) (rows df)\<rparr>"

text \<open>\<open>series.str.len()\<close>: the length of each string, null for null.\<close>

definition str_len :: "series \<Rightarrow> error + series" where
  "str_len s =
     (if \<exists>v \<in> set s. is_Num v then Inl AttributeError
      else Inr (map (\<lambda>v. case v of Str t \<Rightarrow> Num (int (length t)) | _ \<Rightarrow> Null) s))"

text \<open>
  \<open>series.str.replace("\\\\", "")\<close>. The Python literal is the two characters
  backslash backslash. \<open>str.replace(pat, repl, n=-1, case=None, flags=0, regex=True)\<close>
  reads its pattern as a regular expression unless told otherwise, and that regular
  expression matches one backslash character: every backslash of the text is replaced by
  the empty string.
\<close>

definition backslash :: char where
  "backslash = CHR 0x5C"

definition clean_text :: "string \<Rightarrow> string" where
  "clean_text t = filter (\<lambda>x. x \<noteq> backslash) t"

fun clean_cell :: "cell \<Rightarrow> cell" where
  "clean_cell (Str t) = Str (clean_text t)"
| "clean_cell v = v"

definition str_replace_backslash :: "series \<Rightarrow> error + series" where
  "str_replace_backslash s =
     (if \<exists>v \<in> set s. is_Num v then Inl AttributeError else Inr (map clean_cell s))"

section \<open>The pattern and the extractor\<close>

text \<open>
  The compiled pattern is the regular expression engine's: it is taken as given, as the
  list of its named groups and its matching function, which returns nothing when the text
  does not match and otherwise the text captured by each group that took part.
\<close>

record pattern =
  groups :: "string list"
  matcher :: "string \<Rightarrow> (string \<rightharpoonup> string) option"

record parser =
  event_regex :: "string \<rightharpoonup> pattern"

definition REGEX_FILE :: string where
  "REGEX_FILE = ''resources/splunk_notable_regex.yaml''"

definition EVENT_NAME :: string where
  "EVENT_NAME = ''notable''"

text \<open>
  Modelled from the spec: \<open>_load_regex_yaml\<close> of the base class EventParser, which is not
  among the sources. The spec: loading fails with ConfigurationError if the named pattern
  resource cannot be located or fails to parse as a valid regex. The file system is a map
  from paths to contents and \<open>compile\<close> is the regular expression compiler.
\<close>

definition load_regex_yaml ::
  "(string \<rightharpoonup> string) \<Rightarrow> (string \<Rightarrow> pattern option) \<Rightarrow> string \<Rightarrow> error + pattern" where
  "load_regex_yaml fs compile path =
     (case fs path of
        None \<Rightarrow> Inl ConfigurationError
      | Some txt \<Rightarrow> (case compile txt of None \<Rightarrow> Inl ConfigurationError | Some p \<Rightarrow> Inr p))"

text \<open>\<open>__init__\<close>; \<open>dir\<close> is the directory of the module's file.\<close>

definition init ::
  "(string \<rightharpoonup> string) \<Rightarrow> (string \<Rightarrow> pattern option) \<Rightarrow> string \<Rightarrow> error + parser" where
  "init fs compile dir =
     (let regex_filepath = dir @ ''/'' @ REGEX_FILE in
      bind_err (load_regex_yaml fs compile regex_filepath)
        (\<lambda>p. Inr \<lparr>event_regex = Map.empty(EVENT_NAME \<mapsto> p)\<rparr>))"

text \<open>
  Modelled from the spec: \<open>parse_raw_event\<close> of the base class EventParser, which is not
  among the sources. The spec: the pattern configured for the event type is applied to
  the text column of every row and gives one output column per named group, the matched
  text or a missing value; a row that does not match at all gives missing values in every
  group and is not dropped; the output has the row count of the input; an absent text
  column is a SchemaError, a missing pattern a ConfigurationError, and the text column
  must hold string data.
\<close>

definition extract_row :: "pattern \<Rightarrow> cell \<Rightarrow> (string \<rightharpoonup> cell)" where
  "extract_row p v =
     (\<lambda>g. if g \<in> set (groups p)
          then Some (case v of
                       Str t \<Rightarrow> (case matcher p t of
                                   None \<Rightarrow> Null
                                 | Some caps \<Rightarrow> (case caps g of None \<Rightarrow> Null | Some s \<Rightarrow> Str s))
                     | _ \<Rightarrow> Null)
          else None)"

definition parse_raw_event ::
  "parser \<Rightarrow> dataframe \<Rightarrow> string \<Rightarrow> string \<Rightarrow> error + dataframe" where
  "parse_raw_event self df raw_column event =
     (case event_regex self event of
        None \<Rightarrow> Inl ConfigurationError
      | Some p \<Rightarrow>
          bind_err (getitem df raw_column) (\<lambda>s.
            if \<exists>v \<in> set s. is_Num v then Inl AttributeError
            else Inr \<lparr>columns = groups p,
                      rows = map (\<lambda>r. (fst r, extract_row p (cell_at r raw_column))) (rows df)\<rparr>))"

section \<open>The Splunk notable parser\<close>

text \<open>One round of the loop of \<open>_process_ip_fields\<close>, for the field \<open>ip\<close>.\<close>

definition process_ip_field :: "string \<Rightarrow> dataframe \<Rightarrow> error + dataframe" where
  "process_ip_field ip parsed_dataframe =
     (let ip2 = ip @ ''2'';
          ip_len = ip @ ''_len''
      in
      bind_err (getitem parsed_dataframe ip) (\<lambda>s.
      bind_err (str_len s) (\<lambda>lens.
      let parsed_dataframe = setitem parsed_dataframe ip_len lens in
      bind_err (getitem parsed_dataframe ip_len) (\<lambda>l0.
      let tmp_dataframe = mask_rows parsed_dataframe (eq_scalar l0 0) in
      bind_err (getitem parsed_dataframe ip_len) (\<lambda>l1.
      let parsed_dataframe = mask_rows parsed_dataframe (ne_scalar l1 0) in
      bind_err
        (if \<not> df_empty tmp_dataframe then
           bind_err (getitem tmp_dataframe ip2) (\<lambda>s2.
           let tmp_dataframe = setitem tmp_dataframe ip s2 in
           if \<not> df_empty parsed_dataframe
           then Inr (concat_frames parsed_dataframe tmp_dataframe)
           else Inr tmp_dataframe)
         else Inr parsed_dataframe)
        (\<lambda>parsed_dataframe. drop_columns parsed_dataframe [ip_len, ip2]))))))"

fun process_ip_loop :: "string list \<Rightarrow> dataframe \<Rightarrow> error + dataframe" where
  "process_ip_loop [] parsed_dataframe = Inr parsed_dataframe"
| "process_ip_loop (ip # ips) parsed_dataframe =
     bind_err (process_ip_field ip parsed_dataframe) (process_ip_loop ips)"

definition process_ip_fields :: "dataframe \<Rightarrow> error + dataframe" where
  "process_ip_fields parsed_dataframe =
     process_ip_loop [''src_ip'', ''dest_ip''] parsed_dataframe"

text \<open>
  \<open>parse\<close> assigns the cleaned text to the caller's dataframe before it extracts, so the
  model returns the caller's dataframe as the call leaves it, next to the result. The
  right-hand side of the assignment is evaluated first: when it fails, nothing is assigned.
\<close>

definition parse :: "parser \<Rightarrow> dataframe \<Rightarrow> string \<Rightarrow> dataframe \<times> (error + dataframe)" where
  "parse self dataframe raw_column =
     (case bind_err (getitem dataframe raw_column) str_replace_backslash of
        Inl e \<Rightarrow> (dataframe, Inl e)
      | Inr cleaned \<Rightarrow>
          (let dataframe = setitem dataframe raw_column cleaned in
           (dataframe,
            bind_err (parse_raw_event self dataframe raw_column EVENT_NAME) (\<lambda>parsed_dataframe.
            let parsed_dataframe = fillna parsed_dataframe (Str '''') in
            process_ip_fields parsed_dataframe))))"

section \<open>Vocabulary of the statements\<close>

text \<open>
  The primary field \<open>ip\<close> of a row has length zero: it is the empty string.
\<close>

definition zero_len :: "string \<Rightarrow> row \<Rightarrow> bool" where
  "zero_len ip r = (cell_at r ip = Str [])"

text \<open>
  The primary field \<open>ip\<close> of a row is a string of length other than zero. A null field has
  no length and is in neither group.
\<close>

definition nonzero_len :: "string \<Rightarrow> row \<Rightarrow> bool" where
  "nonzero_len ip r = (case cell_at r ip of Str t \<Rightarrow> t \<noteq> [] | _ \<Rightarrow> False)"

text \<open>
  What one round of the merge makes of a row: the alternate field and the length column are
  gone, and a primary field that was empty holds what the alternate field held.
\<close>

definition merged_row :: "string \<Rightarrow> row \<Rightarrow> row" where
  "merged_row ip r =
     (fst r, \<lambda>c. if c = ip @ ''_len'' \<or> c = ip @ ''2'' then None
                 else if c = ip \<and> zero_len ip r then Some (cell_at r (ip @ ''2''))
                 else snd r c)"

text \<open>
  No cell of column \<open>c\<close> is a number, so that the \<open>.str\<close> accessor applies.
\<close>

definition no_Num :: "string \<Rightarrow> dataframe \<Rightarrow> bool" where
  "no_Num c df = (\<forall>r \<in> set (rows df). \<not> is_Num (cell_at r c))"

text \<open>
  A row with the length column of the round for \<open>ip\<close> filled in.
\<close>

definition with_len :: "string \<Rightarrow> row \<Rightarrow> row" where
  "with_len ip r =
     (fst r, (snd r)(ip @ ''_len'' \<mapsto>
        (case cell_at r ip of Str t \<Rightarrow> Num (int (length t)) | _ \<Rightarrow> Null)))"

text \<open>
  The columns once the length column has been assigned.
\<close>

definition helper_columns :: "string \<Rightarrow> dataframe \<Rightarrow> string list" where
  "helper_columns ip df =
     (if ip @ ''_len'' \<in> set (columns df) then columns df else columns df @ [ip @ ''_len''])"

text \<open>
  The zero-length group of a round (\<open>tmp_dataframe\<close>) and the non-empty group
  (\<open>parsed_dataframe\<close> after the second mask), both still holding the length column.
\<close>

definition zero_group :: "string \<Rightarrow> dataframe \<Rightarrow> dataframe" where
  "zero_group ip df =
     \<lparr>columns = helper_columns ip df,
      rows = map (with_len ip) (filter (zero_len ip) (rows df))\<rparr>"

definition nonzero_group :: "string \<Rightarrow> dataframe \<Rightarrow> dataframe" where
  "nonzero_group ip df =
     \<lparr>columns = helper_columns ip df,
      rows = map (with_len ip) (filter (nonzero_len ip) (rows df))\<rparr>"

text \<open>
  The order in which a round returns the rows: the non-empty group, then the zero-length group.
\<close>

definition partition_rows :: "string \<Rightarrow> row list \<Rightarrow> row list" where
  "partition_rows ip rs = filter (nonzero_len ip) rs @ filter (zero_len ip) rs"

text \<open>
  A cell that holds a string (not null, not a number).
\<close>

definition is_Str :: "cell \<Rightarrow> bool" where
  "is_Str v = (case v of Str t \<Rightarrow> True | _ \<Rightarrow> False)"

text \<open>
  The fields the post-processing reads, and the columns it removes.
\<close>

definition ip_columns :: "string list" where
  "ip_columns = [''src_ip'', ''src_ip2'', ''dest_ip'', ''dest_ip2'']"

definition dropped_columns :: "string list" where
  "dropped_columns = [''src_ip_len'', ''src_ip2'', ''dest_ip_len'', ''dest_ip2'']"

text \<open>
  A row after both rounds, and the order of the rows after both rounds.
\<close>

definition final_row :: "row \<Rightarrow> row" where
  "final_row r = merged_row ''dest_ip'' (merged_row ''src_ip'' r)"

definition final_order :: "row list \<Rightarrow> row list" where
  "final_order rs = partition_rows ''dest_ip'' (partition_rows ''src_ip'' rs)"

text \<open>
  The text that group \<open>g\<close> holds for a text cell after extraction and null-filling: the
  capture, or the empty string when the group took no part, the text did not match or the
  cell is null.
\<close>

definition captured :: "pattern \<Rightarrow> cell \<Rightarrow> string \<Rightarrow> string" where
  "captured p v g =
     (case v of
        Str t \<Rightarrow> (case matcher p t of
                    None \<Rightarrow> []
                  | Some caps \<Rightarrow> (case caps g of None \<Rightarrow> [] | Some s \<Rightarrow> s))
      | _ \<Rightarrow> [])"

text \<open>
  A row of the caller's dataframe after the cleaning step.
\<close>

definition cleaned_row :: "string \<Rightarrow> row \<Rightarrow> row" where
  "cleaned_row raw_column r = (fst r, (snd r)(raw_column \<mapsto> clean_cell (cell_at r raw_column)))"

text \<open>
  A row after cleaning, extraction and null-filling.
\<close>

definition parsed_row :: "pattern \<Rightarrow> string \<Rightarrow> row \<Rightarrow> row" where
  "parsed_row p raw_column r =
     (fst r, \<lambda>g. if g \<in> set (groups p)
                 then Some (Str (captured p (clean_cell (cell_at r raw_column)) g))
                 else None)"

text \<open>
  Column \<open>c\<close> exists and holds string data (strings or nulls).
\<close>

definition string_column :: "string \<Rightarrow> dataframe \<Rightarrow> bool" where
  "string_column c df = (c \<in> set (columns df) \<and> no_Num c df)"

text \<open>
  What \<open>parse\<close> needs in order to return a dataset: the text column holds string data, the
  parser has the pattern \<open>p\<close> under the event name, and \<open>p\<close> has the four address groups.
\<close>

definition parse_ready :: "parser \<Rightarrow> dataframe \<Rightarrow> string \<Rightarrow> pattern \<Rightarrow> bool" where
  "parse_ready self df raw_column p =
     (string_column raw_column df \<and> event_regex self EVENT_NAME = Some p \<and>
      list_all (\<lambda>c. c \<in> set (groups p)) ip_columns)"

text \<open>
  A row without the alternate field and the length column of the round for \<open>ip\<close>.
\<close>

definition drop_helpers :: "string \<Rightarrow> row \<Rightarrow> row" where
  "drop_helpers ip r =
     (fst r, \<lambda>c. if c = ip @ ''_len'' \<or> c = ip @ ''2'' then None else snd r c)"

text \<open>
  A row whose primary field has been assigned its alternate field.
\<close>

definition overwritten :: "string \<Rightarrow> row \<Rightarrow> row" where
  "overwritten ip r = (fst r, (snd r)(ip \<mapsto> cell_at r (ip @ ''2'')))"

text \<open>
  The cleaner as the specification words it: each doubled backslash, read from the left,
  collapses to nothing, and a backslash on its own stays.
\<close>

fun collapse_doubled :: "string \<Rightarrow> string" where
  "collapse_doubled (a # b # t) =
     (if a = backslash \<and> b = backslash then collapse_doubled t
      else a # collapse_doubled (b # t))"
| "collapse_doubled t = t"

text \<open>
  A cell after null-filling with the empty string: a missing value has become the empty
  string, any other value is as it was.
\<close>

definition fill_empty :: "cell \<Rightarrow> cell" where
  "fill_empty v = (if v = Null then Str [] else v)"

text \<open>
  What a frame shows: its rows in order, each as its index label and its cells in column
  order.
\<close>

definition table :: "dataframe \<Rightarrow> (nat \<times> cell list) list" where
  "table d = map (\<lambda>r. (fst r, map (cell_at r) (columns d))) (rows d)"

section \<open>Sample pattern and sample frames\<close>

text \<open>
  A sample pattern for worked examples. It reads a line of \<open>key=value\<close> tokens separated by
  spaces; a group captures the value of the first token with its name; a line with no token
  for any group does not match.
\<close>

fun split_on :: "char \<Rightarrow> string \<Rightarrow> string list" where
  "split_on d [] = [[]]"
| "split_on d (x # xs) =
     (if x = d then [] # split_on d xs
      else (case split_on d xs of w # ws \<Rightarrow> (x # w) # ws | [] \<Rightarrow> [[x]]))"

fun strip_prefix :: "string \<Rightarrow> string \<Rightarrow> string option" where
  "strip_prefix [] t = Some t"
| "strip_prefix (x # xs) [] = None"
| "strip_prefix (x # xs) (y # ys) = (if x = y then strip_prefix xs ys else None)"

fun key_value :: "string list \<Rightarrow> string \<Rightarrow> string option" where
  "key_value [] g = None"
| "key_value (tok # toks) g =
     (case strip_prefix (g @ ''='') tok of Some v \<Rightarrow> Some v | None \<Rightarrow> key_value toks g)"

definition demo_groups :: "string list" where
  "demo_groups = [''src_ip'', ''src_ip2'', ''dest_ip'', ''dest_ip2'']"

definition demo_matcher :: "string \<Rightarrow> (string \<rightharpoonup> string) option" where
  "demo_matcher t =
     (let toks = split_on CHR '' '' t in
      if list_ex (\<lambda>g. key_value toks g \<noteq> None) demo_groups then Some (key_value toks) else None)"

definition demo_pattern :: pattern where
  "demo_pattern = \<lparr>groups = demo_groups, matcher = demo_matcher\<rparr>"

definition demo_parser :: parser where
  "demo_parser = \<lparr>event_regex = Map.empty(EVENT_NAME \<mapsto> demo_pattern)\<rparr>"

text \<open>
  The raw line of the specification's scenario, with its two backslashes, and what is left
  of it after cleaning.
\<close>

definition scenario_text :: string where
  "scenario_text = ''src_ip='' @ [backslash, backslash] @ ''10.0.0.1 dest_ip= dest_ip2=10.0.0.2''"

definition scenario_frame :: dataframe where
  "scenario_frame = \<lparr>columns = [''raw''], rows = [(0, Map.empty(''raw'' \<mapsto> Str scenario_text))]\<rparr>"

text \<open>
  Sample frames: five raw events of which the second and the fourth do not match; a parsed
  frame with empty primaries; frames whose src_ip is empty in every row, and in none.
\<close>

definition events_frame :: dataframe where
  "events_frame =
     \<lparr>columns = [''host'', ''raw''],
      rows =
        [(0, map_of [(''host'', Str ''a''), (''raw'', Str ''src_ip=10.0.0.1 dest_ip=10.0.0.9'')]),
         (1, map_of [(''host'', Str ''b''), (''raw'', Str ''garbage line'')]),
         (2, map_of [(''host'', Str ''c''),
                     (''raw'', Str ''src_ip= src_ip2=10.0.0.3 dest_ip= dest_ip2=10.0.0.4'')]),
         (3, map_of [(''host'', Str ''d''), (''raw'', Str ''nothing to see'')]),
         (4, map_of [(''host'', Str ''e''), (''raw'', Str scenario_text)])]\<rparr>"

definition merge_frame :: dataframe where
  "merge_frame =
     \<lparr>columns = [''src_ip'', ''src_ip2'', ''dest_ip'', ''dest_ip2''],
      rows =
        [(0, map_of [(''src_ip'', Str ''''), (''src_ip2'', Str ''10.0.0.3''),
                     (''dest_ip'', Str ''10.0.0.9''), (''dest_ip2'', Str '''')]),
         (1, map_of [(''src_ip'', Str ''10.0.0.1''), (''src_ip2'', Str ''''),
                     (''dest_ip'', Str ''''), (''dest_ip2'', Str ''10.0.0.4'')]),
         (2, map_of [(''src_ip'', Str ''''), (''src_ip2'', Str ''''),
                     (''dest_ip'', Str ''''), (''dest_ip2'', Str '''')])]\<rparr>"

definition all_empty_frame :: dataframe where
  "all_empty_frame =
     \<lparr>columns = [''src_ip'', ''src_ip2''],
      rows = [(7, map_of [(''src_ip'', Str ''''), (''src_ip2'', Str ''10.0.0.3'')]),
              (8, map_of [(''src_ip'', Str ''''), (''src_ip2'', Str '''')])]\<rparr>"

definition all_filled_frame :: dataframe where
  "all_filled_frame =
     \<lparr>columns = [''src_ip'', ''src_ip2''],
      rows = [(5, map_of [(''src_ip'', Str ''10.0.0.1''), (''src_ip2'', Str ''10.0.0.3'')]),
              (6, map_of [(''src_ip'', Str ''10.0.0.2''), (''src_ip2'', Str [])])]\<rparr>"

definition cleaned_scenario_text :: string where
  "cleaned_scenario_text = ''src_ip=10.0.0.1 dest_ip= dest_ip2=10.0.0.2''"

text \<open>
  The sample pattern with one more group, \<open>user\<close>, which is not an address field, and a
  parser configured with it.
\<close>

definition demo_user_pattern :: pattern where
  "demo_user_pattern = \<lparr>groups = ''user'' # demo_groups, matcher = demo_matcher\<rparr>"

definition demo_user_parser :: parser where
  "demo_user_parser = \<lparr>event_regex = Map.empty(EVENT_NAME \<mapsto> demo_user_pattern)\<rparr>"

section \<open>Properties\<close>

lemma bind_err_simps [simp]:
  "bind_err (Inl e) f = Inl e"
  "bind_err (Inr x) f = f x"
  by (simp_all add: bind_err_def)

lemma mask_by_map: "map fst (filter snd (zip xs (map P xs))) = filter P xs"
  by (induction xs) auto

lemma zip_map_same: "map f (zip xs (map g xs)) = map (\<lambda>x. f (x, g x)) xs"
  by (induction xs) auto

lemma getitem_Inr:
  "c \<in> set (columns df) \<Longrightarrow> getitem df c = Inr (map (\<lambda>r. cell_at r c) (rows df))"
  by (simp add: getitem_def)

lemma setitem_map:
  "setitem df c (map f (rows df)) =
     \<lparr>columns = (if c \<in> set (columns df) then columns df else columns df @ [c]),
      rows = map (\<lambda>r. (fst r, (snd r)(c \<mapsto> f r))) (rows df)\<rparr>"
  by (simp add: setitem_def zip_map_same)

lemma mask_rows_map2:
  "mask_rows \<lparr>columns = cs, rows = map f xs\<rparr> (map P xs) =
     \<lparr>columns = cs, rows = map f (filter P xs)\<rparr>"
  by (induction xs) (auto simp: mask_rows_def)

lemma eq_scalar_map: "eq_scalar (map g xs) k = map (\<lambda>x. g x = Num k) xs"
  by (simp add: eq_scalar_def)

lemma ne_scalar_map:
  "ne_scalar (map g xs) k =
     map (\<lambda>x. case g x of Num n \<Rightarrow> n \<noteq> k | Str t \<Rightarrow> True | Null \<Rightarrow> False) xs"
  by (simp add: ne_scalar_def)

lemma str_len_map:
  "\<forall>x \<in> set xs. \<not> is_Num (g x) \<Longrightarrow>
   str_len (map g xs) =
     Inr (map (\<lambda>x. case g x of Str t \<Rightarrow> Num (int (length t)) | _ \<Rightarrow> Null) xs)"
  by (simp add: str_len_def)

lemma cell_at_with_len_len:
  "cell_at (with_len ip r) (ip @ ''_len'') =
     (case cell_at r ip of Str t \<Rightarrow> Num (int (length t)) | _ \<Rightarrow> Null)"
  by (simp add: with_len_def cell_at_def)

lemma zero_with_len:
  "(cell_at (with_len ip r) (ip @ ''_len'') = Num 0) = zero_len ip r"
  by (simp add: cell_at_with_len_len zero_len_def split: cell.splits)

lemma nonzero_with_len:
  "(case cell_at (with_len ip r) (ip @ ''_len'') of Num n \<Rightarrow> n \<noteq> 0 | Str t \<Rightarrow> True | Null \<Rightarrow> False)
     = nonzero_len ip r"
  by (simp add: cell_at_with_len_len nonzero_len_def split: cell.splits)

lemma helper_columns_facts:
  "ip @ ''_len'' \<in> set (helper_columns ip df)"
  "helper_columns ip df \<noteq> []"
  "c \<noteq> ip @ ''_len'' \<Longrightarrow> c \<in> set (helper_columns ip df) \<longleftrightarrow> c \<in> set (columns df)"
  by (auto simp: helper_columns_def)

lemma df_empty_groups:
  "df_empty (zero_group ip df) = (filter (zero_len ip) (rows df) = [])"
  "df_empty (nonzero_group ip df) = (filter (nonzero_len ip) (rows df) = [])"
  by (simp_all add: df_empty_def zero_group_def nonzero_group_def helper_columns_facts)

lemma process_ip_field_steps:
  assumes ip: "ip \<in> set (columns df)" and nn: "no_Num ip df"
  shows "process_ip_field ip df =
      bind_err
        (if \<not> df_empty (zero_group ip df) then
           bind_err (getitem (zero_group ip df) (ip @ ''2'')) (\<lambda>s2.
           let tmp_dataframe = setitem (zero_group ip df) ip s2 in
           if \<not> df_empty (nonzero_group ip df)
           then Inr (concat_frames (nonzero_group ip df) tmp_dataframe)
           else Inr tmp_dataframe)
         else Inr (nonzero_group ip df))
        (\<lambda>parsed_dataframe. drop_columns parsed_dataframe [ip @ ''_len'', ip @ ''2''])"
proof -
  define df1 where "df1 = \<lparr>columns = helper_columns ip df, rows = map (with_len ip) (rows df)\<rparr>"
  have s: "getitem df ip = Inr (map (\<lambda>r. cell_at r ip) (rows df))"
    using ip by (rule getitem_Inr)
  have lens: "str_len (map (\<lambda>r. cell_at r ip) (rows df)) =
      Inr (map (\<lambda>r. case cell_at r ip of Str t \<Rightarrow> Num (int (length t)) | _ \<Rightarrow> Null) (rows df))"
    using nn by (intro str_len_map) (simp add: no_Num_def)
  have set1: "setitem df (ip @ ''_len'')
      (map (\<lambda>r. case cell_at r ip of Str t \<Rightarrow> Num (int (length t)) | _ \<Rightarrow> Null) (rows df)) = df1"
    by (simp add: setitem_map df1_def helper_columns_def with_len_def)
  have l: "getitem df1 (ip @ ''_len'') = Inr (map (\<lambda>r. cell_at r (ip @ ''_len'')) (rows df1))"
    by (rule getitem_Inr) (simp add: df1_def helper_columns_facts)
  have m0: "mask_rows df1 (eq_scalar (map (\<lambda>r. cell_at r (ip @ ''_len'')) (rows df1)) 0)
      = zero_group ip df"
    by (simp add: eq_scalar_map mask_rows_map2 df1_def zero_group_def o_def zero_with_len)
  have m1: "mask_rows df1 (ne_scalar (map (\<lambda>r. cell_at r (ip @ ''_len'')) (rows df1)) 0)
      = nonzero_group ip df"
    by (simp add: ne_scalar_map mask_rows_map2 df1_def nonzero_group_def o_def nonzero_with_len)
  show ?thesis
    unfolding process_ip_field_def Let_def
    by (simp only: s bind_err_simps lens set1 l m0 m1)
qed

lemma process_ip_field_result:
  assumes ip: "ip \<in> set (columns df)" and ip2: "ip @ ''2'' \<in> set (columns df)"
    and nn: "no_Num ip df"
  shows "process_ip_field ip df =
     Inr \<lparr>columns = filter (\<lambda>c. c \<noteq> ip @ ''_len'' \<and> c \<noteq> ip @ ''2'') (columns df),
          rows = map (merged_row ip)
                   (filter (nonzero_len ip) (rows df) @ filter (zero_len ip) (rows df))\<rparr>"
proof -
  define cols1 where "cols1 = helper_columns ip df"
  define tmp where "tmp = zero_group ip df"
  define rest where "rest = nonzero_group ip df"
  have cols1_len: "ip @ ''_len'' \<in> set cols1" and cols1_ip2: "ip @ ''2'' \<in> set cols1"
    and ip1: "ip \<in> set cols1"
    using ip ip2 by (auto simp: cols1_def helper_columns_def)
  have s2: "getitem tmp (ip @ ''2'') = Inr (map (\<lambda>r. cell_at r (ip @ ''2'')) (rows tmp))"
    by (rule getitem_Inr) (simp add: tmp_def zero_group_def cols1_ip2 [unfolded cols1_def])
  define tmp' where
    "tmp' = \<lparr>columns = cols1,
             rows = map (\<lambda>r. (fst r, (snd r)(ip \<mapsto> cell_at r (ip @ ''2''))))
                      (map (with_len ip) (filter (zero_len ip) (rows df)))\<rparr>"
  have set2: "setitem tmp ip (map (\<lambda>r. cell_at r (ip @ ''2'')) (rows tmp)) = tmp'"
    using ip1 setitem_map [of tmp ip "\<lambda>r. cell_at r (ip @ ''2'')"]
    by (simp add: tmp_def tmp'_def zero_group_def cols1_def)
  have cc: "concat_frames rest tmp' = \<lparr>columns = cols1, rows = rows rest @ rows tmp'\<rparr>"
    by (simp add: concat_frames_def rest_def tmp'_def nonzero_group_def cols1_def)
  have dropc: "filter (\<lambda>c. c \<notin> set [ip @ ''_len'', ip @ ''2'']) cols1 =
      filter (\<lambda>c. c \<noteq> ip @ ''_len'' \<and> c \<noteq> ip @ ''2'') (columns df)"
    by (simp add: cols1_def helper_columns_def)
  define D :: "row \<Rightarrow> row" where
    "D = (\<lambda>r. (fst r, \<lambda>c. if c \<in> set [ip @ ''_len'', ip @ ''2''] then None else snd r c))"
  have drop_ok: "drop_columns \<lparr>columns = cols1, rows = rs\<rparr> [ip @ ''_len'', ip @ ''2''] =
      Inr \<lparr>columns = filter (\<lambda>c. c \<noteq> ip @ ''_len'' \<and> c \<noteq> ip @ ''2'') (columns df),
           rows = map D rs\<rparr>" for rs
    using cols1_len cols1_ip2 dropc by (simp add: drop_columns_def D_def)
  have row_z: "D (fst (with_len ip r), (snd (with_len ip r))(ip \<mapsto> cell_at (with_len ip r) (ip @ ''2'')))
      = merged_row ip r" if "zero_len ip r" for r
    using that by (auto simp: D_def merged_row_def with_len_def cell_at_def fun_eq_iff)
  have row_n: "D (with_len ip r) = merged_row ip r" if "nonzero_len ip r" for r
    using that
    by (auto simp: D_def merged_row_def with_len_def nonzero_len_def zero_len_def fun_eq_iff)
  have rows_n: "map D (rows rest) = map (merged_row ip) (filter (nonzero_len ip) (rows df))"
    by (simp add: rest_def nonzero_group_def row_n)
  have rows_z: "map D (rows tmp') = map (merged_row ip) (filter (zero_len ip) (rows df))"
    by (simp add: tmp'_def row_z)
  have drop_rest: "drop_columns rest [ip @ ''_len'', ip @ ''2''] =
      Inr \<lparr>columns = filter (\<lambda>c. c \<noteq> ip @ ''_len'' \<and> c \<noteq> ip @ ''2'') (columns df),
           rows = map D (rows rest)\<rparr>"
    using drop_ok [of "rows rest"] by (simp add: rest_def nonzero_group_def cols1_def)
  have drop_tmp: "drop_columns tmp' [ip @ ''_len'', ip @ ''2''] =
      Inr \<lparr>columns = filter (\<lambda>c. c \<noteq> ip @ ''_len'' \<and> c \<noteq> ip @ ''2'') (columns df),
           rows = map D (rows tmp')\<rparr>"
    using drop_ok [of "rows tmp'"] by (simp add: tmp'_def)
  have drop_cc: "drop_columns (concat_frames rest tmp') [ip @ ''_len'', ip @ ''2''] =
      Inr \<lparr>columns = filter (\<lambda>c. c \<noteq> ip @ ''_len'' \<and> c \<noteq> ip @ ''2'') (columns df),
           rows = map D (rows rest) @ map D (rows tmp')\<rparr>"
    using drop_ok [of "rows rest @ rows tmp'"] by (simp add: cc)
  have "process_ip_field ip df =
      bind_err
        (if \<not> filter (zero_len ip) (rows df) = [] then
           if \<not> filter (nonzero_len ip) (rows df) = []
           then Inr (concat_frames rest tmp') else Inr tmp'
         else Inr rest)
        (\<lambda>parsed_dataframe. drop_columns parsed_dataframe [ip @ ''_len'', ip @ ''2''])"
    unfolding process_ip_field_steps [OF ip nn] Let_def
    by (simp only: tmp_def [symmetric] rest_def [symmetric] s2 set2 bind_err_simps)
       (simp add: tmp_def rest_def df_empty_groups)
  also have "\<dots> = Inr \<lparr>columns = filter (\<lambda>c. c \<noteq> ip @ ''_len'' \<and> c \<noteq> ip @ ''2'') (columns df),
          rows = map (merged_row ip)
                   (filter (nonzero_len ip) (rows df) @ filter (zero_len ip) (rows df))\<rparr>"
  proof (cases "filter (zero_len ip) (rows df) = []")
    case True
    then show ?thesis by (simp add: drop_rest rows_n)
  next
    case z: False
    show ?thesis
    proof (cases "filter (nonzero_len ip) (rows df) = []")
      case True
      with z show ?thesis by (simp add: drop_tmp rows_z)
    next
      case False
      with z show ?thesis by (simp add: drop_cc rows_z rows_n)
    qed
  qed
  finally show ?thesis .
qed

lemma process_ip_field_fails:
  assumes "ip \<notin> set (columns df) \<or> ip @ ''2'' \<notin> set (columns df) \<or> \<not> no_Num ip df"
  shows "\<exists>e. process_ip_field ip df = Inl e"
proof (cases "ip \<in> set (columns df)")
  case False
  then show ?thesis by (simp add: process_ip_field_def getitem_def)
next
  case ip: True
  show ?thesis
  proof (cases "no_Num ip df")
    case False
    then have "str_len (map (\<lambda>r. cell_at r ip) (rows df)) = Inl AttributeError"
      by (auto simp: str_len_def no_Num_def)
    with ip show ?thesis by (simp add: process_ip_field_def getitem_def)
  next
    case nn: True
    with ip assms have no2: "ip @ ''2'' \<notin> set (columns df)" by simp
    then have no2': "ip @ ''2'' \<notin> set (helper_columns ip df)"
      by (simp add: helper_columns_def)
    have g: "getitem (zero_group ip df) (ip @ ''2'') = Inl (SchemaError (ip @ ''2''))"
      using no2' by (simp add: getitem_def zero_group_def)
    have d: "drop_columns (nonzero_group ip df) [ip @ ''_len'', ip @ ''2'']
        = Inl (SchemaError (ip @ ''2''))"
      using no2' by (simp add: drop_columns_def nonzero_group_def helper_columns_facts)
    show ?thesis
      unfolding process_ip_field_steps [OF ip nn] by (simp add: g d)
  qed
qed

lemma cell_at_merged_row:
  "cell_at (merged_row ip r) c =
     (if c = ip @ ''_len'' \<or> c = ip @ ''2'' then Null
      else if c = ip \<and> zero_len ip r then cell_at r (ip @ ''2'')
      else cell_at r c)"
  by (simp add: merged_row_def cell_at_def)

lemma fst_merged_row [simp]: "fst (merged_row ip r) = fst r"
  by (simp add: merged_row_def)

lemma zero_nonzero_Str:
  "is_Str (cell_at r ip) \<Longrightarrow> nonzero_len ip r = (\<not> zero_len ip r)"
  by (auto simp: is_Str_def nonzero_len_def zero_len_def split: cell.splits)

lemma mset_partition_rows:
  "\<forall>r \<in> set rs. is_Str (cell_at r ip) \<Longrightarrow> mset (partition_rows ip rs) = mset rs"
  by (induction rs) (auto simp: partition_rows_def zero_nonzero_Str)

lemma length_partition_rows:
  "\<forall>r \<in> set rs. is_Str (cell_at r ip) \<Longrightarrow> length (partition_rows ip rs) = length rs"
  using mset_partition_rows [of rs ip] by (metis size_mset)

lemma set_partition_rows_subset: "set (partition_rows ip rs) \<subseteq> set rs"
  by (auto simp: partition_rows_def)

lemma set_partition_rows:
  "\<forall>r \<in> set rs. is_Str (cell_at r ip) \<Longrightarrow> set (partition_rows ip rs) = set rs"
  using mset_partition_rows [of rs ip] by (metis set_mset_mset)

lemma partition_rows_map:
  assumes "\<And>r. zero_len ip (f r) = zero_len ip r" "\<And>r. nonzero_len ip (f r) = nonzero_len ip r"
  shows "partition_rows ip (map f rs) = map f (partition_rows ip rs)"
  by (simp add: partition_rows_def filter_map o_def assms)

lemma merged_src_keeps_dest:
  "cell_at (merged_row ''src_ip'' r) ''dest_ip'' = cell_at r ''dest_ip''"
  "cell_at (merged_row ''src_ip'' r) ''dest_ip2'' = cell_at r ''dest_ip2''"
  by (simp_all add: cell_at_merged_row)

lemma process_ip_fields_result:
  assumes cols: "set ip_columns \<subseteq> set (columns df)"
    and nn: "no_Num ''src_ip'' df" "no_Num ''dest_ip'' df"
  shows "process_ip_fields df =
     Inr \<lparr>columns = filter (\<lambda>c. c \<notin> set dropped_columns) (columns df),
          rows = map final_row (final_order (rows df))\<rparr>"
proof -
  define df1 where
    "df1 = \<lparr>columns = filter (\<lambda>c. c \<noteq> ''src_ip'' @ ''_len'' \<and> c \<noteq> ''src_ip'' @ ''2'') (columns df),
            rows = map (merged_row ''src_ip'') (partition_rows ''src_ip'' (rows df))\<rparr>"
  have p1: "process_ip_field ''src_ip'' df = Inr df1"
    unfolding df1_def partition_rows_def
    using cols nn(1) by (intro process_ip_field_result) (simp_all add: ip_columns_def)
  have nn1: "no_Num ''dest_ip'' df1"
    using nn(2) set_partition_rows_subset [of "''src_ip''" "rows df"]
    by (auto simp: no_Num_def df1_def merged_src_keeps_dest)
  have p2: "process_ip_field ''dest_ip'' df1 =
      Inr \<lparr>columns = filter (\<lambda>c. c \<noteq> ''dest_ip'' @ ''_len'' \<and> c \<noteq> ''dest_ip'' @ ''2'') (columns df1),
           rows = map (merged_row ''dest_ip'') (partition_rows ''dest_ip'' (rows df1))\<rparr>"
    unfolding partition_rows_def
    using cols nn1 by (intro process_ip_field_result) (simp_all add: ip_columns_def df1_def)
  have z: "zero_len ''dest_ip'' (merged_row ''src_ip'' r) = zero_len ''dest_ip'' r"
    and n: "nonzero_len ''dest_ip'' (merged_row ''src_ip'' r) = nonzero_len ''dest_ip'' r" for r
    by (simp_all add: zero_len_def nonzero_len_def merged_src_keeps_dest)
  have rows2: "map (merged_row ''dest_ip'') (partition_rows ''dest_ip'' (rows df1)) =
      map final_row (final_order (rows df))"
    by (simp add: df1_def partition_rows_map [where f = "merged_row ''src_ip''", OF z n]
        final_order_def final_row_def o_def)
  have cols2: "filter (\<lambda>c. c \<noteq> ''dest_ip'' @ ''_len'' \<and> c \<noteq> ''dest_ip'' @ ''2'') (columns df1) =
      filter (\<lambda>c. c \<notin> set dropped_columns) (columns df)"
    unfolding df1_def dataframe.simps filter_filter
    by (rule filter_cong) (auto simp: dropped_columns_def)
  show ?thesis
    using cols2 by (simp add: process_ip_fields_def p1 p2 rows2)
qed

lemma process_ip_fields_fails:
  assumes "\<not> set ip_columns \<subseteq> set (columns df)"
  shows "\<exists>e. process_ip_fields df = Inl e"
proof (cases "''src_ip'' \<in> set (columns df) \<and> ''src_ip'' @ ''2'' \<in> set (columns df)
    \<and> no_Num ''src_ip'' df")
  case False
  then obtain e where "process_ip_field ''src_ip'' df = Inl e"
    using process_ip_field_fails [of "''src_ip''" df] by blast
  then show ?thesis by (simp add: process_ip_fields_def)
next
  case True
  define df1 where
    "df1 = \<lparr>columns = filter (\<lambda>c. c \<noteq> ''src_ip'' @ ''_len'' \<and> c \<noteq> ''src_ip'' @ ''2'') (columns df),
            rows = map (merged_row ''src_ip'')
              (filter (nonzero_len ''src_ip'') (rows df) @ filter (zero_len ''src_ip'') (rows df))\<rparr>"
  have p1: "process_ip_field ''src_ip'' df = Inr df1"
    unfolding df1_def using True by (intro process_ip_field_result) simp_all
  from True assms have "''dest_ip'' \<notin> set (columns df) \<or> ''dest_ip'' @ ''2'' \<notin> set (columns df)"
    by (auto simp: ip_columns_def)
  then have "''dest_ip'' \<notin> set (columns df1) \<or> ''dest_ip'' @ ''2'' \<notin> set (columns df1)"
    by (auto simp: df1_def)
  then obtain e where "process_ip_field ''dest_ip'' df1 = Inl e"
    using process_ip_field_fails [of "''dest_ip''" df1] by blast
  with p1 show ?thesis by (simp add: process_ip_fields_def)
qed

lemma cell_at_cleaned_row [simp]:
  "cell_at (cleaned_row raw r) raw = clean_cell (cell_at r raw)"
  by (simp add: cleaned_row_def cell_at_def)

lemma fst_cleaned_row [simp]: "fst (cleaned_row raw r) = fst r"
  by (simp add: cleaned_row_def)

lemma is_Num_clean_cell [simp]: "is_Num (clean_cell v) = is_Num v"
  by (cases v) simp_all

lemma clean_step:
  assumes "string_column raw df"
  shows "bind_err (getitem df raw) str_replace_backslash =
     Inr (map (\<lambda>r. clean_cell (cell_at r raw)) (rows df))"
    and "setitem df raw (map (\<lambda>r. clean_cell (cell_at r raw)) (rows df)) =
     \<lparr>columns = columns df, rows = map (cleaned_row raw) (rows df)\<rparr>"
  using assms
  by (auto simp: string_column_def no_Num_def getitem_def str_replace_backslash_def
      setitem_map cleaned_row_def)

lemma clean_step_fails:
  assumes "\<not> string_column raw df"
  shows "\<exists>e. bind_err (getitem df raw) str_replace_backslash = Inl e"
  using assms
  by (auto simp: string_column_def no_Num_def getitem_def str_replace_backslash_def)

lemma extract_fill:
  assumes "event_regex self event = Some p" "string_column raw df"
  shows "bind_err (parse_raw_event self \<lparr>columns = columns df, rows = map (cleaned_row raw) (rows df)\<rparr>
            raw event) (\<lambda>parsed_dataframe. Inr (fillna parsed_dataframe (Str ''''))) =
     Inr \<lparr>columns = groups p, rows = map (parsed_row p raw) (rows df)\<rparr>"
proof -
  have row: "(\<lambda>c. if c \<in> set (groups p) \<and> cell_at (fst r, extract_row p v) c = Null
                  then Some (Str '''') else snd (fst r, extract_row p v) c) =
             (\<lambda>g. if g \<in> set (groups p) then Some (Str (captured p v g)) else None)" for r :: row and v
    by (auto simp: fun_eq_iff cell_at_def extract_row_def captured_def
        split: cell.splits option.splits)
  show ?thesis
    using assms
    by (simp add: parse_raw_event_def getitem_def string_column_def no_Num_def fillna_def
        o_def row parsed_row_def)
qed

lemma cell_at_parsed_row:
  "cell_at (parsed_row p raw r) g =
     (if g \<in> set (groups p) then Str (captured p (clean_cell (cell_at r raw)) g) else Null)"
  by (simp add: parsed_row_def cell_at_def)

lemma parse_result:
  assumes raw: "string_column raw df" and ev: "event_regex self EVENT_NAME = Some p"
    and gr: "set ip_columns \<subseteq> set (groups p)"
  shows "parse self df raw =
    (\<lparr>columns = columns df, rows = map (cleaned_row raw) (rows df)\<rparr>,
     Inr \<lparr>columns = filter (\<lambda>c. c \<notin> set dropped_columns) (groups p),
          rows = map final_row (final_order (map (parsed_row p raw) (rows df)))\<rparr>)"
proof -
  define P where "P = \<lparr>columns = groups p, rows = map (parsed_row p raw) (rows df)\<rparr>"
  define C where "C = \<lparr>columns = columns df, rows = map (cleaned_row raw) (rows df)\<rparr>"
  have nn: "no_Num ''src_ip'' P" "no_Num ''dest_ip'' P"
    using gr by (auto simp: no_Num_def P_def cell_at_parsed_row ip_columns_def)
  have merge: "process_ip_fields P =
      Inr \<lparr>columns = filter (\<lambda>c. c \<notin> set dropped_columns) (groups p),
           rows = map final_row (final_order (map (parsed_row p raw) (rows df)))\<rparr>"
    using process_ip_fields_result [of P] gr nn by (simp add: P_def)
  have ef: "bind_err (parse_raw_event self C raw EVENT_NAME)
      (\<lambda>parsed_dataframe. Inr (fillna parsed_dataframe (Str []))) = Inr P"
    using extract_fill [OF ev raw] by (simp add: P_def C_def)
  then obtain pd where pd: "parse_raw_event self C raw EVENT_NAME = Inr pd"
    by (cases "parse_raw_event self C raw EVENT_NAME") simp_all
  with ef have fill: "fillna pd (Str []) = P" by simp
  show ?thesis
    by (simp add: parse_def clean_step [OF raw] Let_def C_def [symmetric] pd fill merge)
qed

lemma parse_fails:
  assumes "\<not> (string_column raw df \<and>
      (\<exists>p. event_regex self EVENT_NAME = Some p \<and> set ip_columns \<subseteq> set (groups p)))"
  shows "\<exists>e. snd (parse self df raw) = Inl e"
proof (cases "string_column raw df")
  case False
  then obtain e where "bind_err (getitem df raw) str_replace_backslash = Inl e"
    using clean_step_fails by blast
  then show ?thesis by (simp add: parse_def)
next
  case raw: True
  define C where "C = \<lparr>columns = columns df, rows = map (cleaned_row raw) (rows df)\<rparr>"
  show ?thesis
  proof (cases "event_regex self EVENT_NAME")
    case None
    then show ?thesis
      by (simp add: parse_def clean_step [OF raw] Let_def parse_raw_event_def)
  next
    case (Some p)
    with raw assms have gr: "\<not> set ip_columns \<subseteq> set (groups p)" by simp
    define P where "P = \<lparr>columns = groups p, rows = map (parsed_row p raw) (rows df)\<rparr>"
    have ef: "bind_err (parse_raw_event self C raw EVENT_NAME)
        (\<lambda>parsed_dataframe. Inr (fillna parsed_dataframe (Str []))) = Inr P"
      using extract_fill [OF Some raw] by (simp add: P_def C_def)
    then obtain pd where pd: "parse_raw_event self C raw EVENT_NAME = Inr pd"
      by (cases "parse_raw_event self C raw EVENT_NAME") simp_all
    with ef have fill: "fillna pd (Str []) = P" by simp
    obtain e where "process_ip_fields P = Inl e"
      using process_ip_fields_fails [of P] gr by (auto simp: P_def)
    then show ?thesis
      by (simp add: parse_def clean_step [OF raw] Let_def C_def [symmetric] pd fill)
  qed
qed

lemma mset_final_order:
  assumes "\<forall>r \<in> set rs. is_Str (cell_at r ''src_ip'') \<and> is_Str (cell_at r ''dest_ip'')"
  shows "mset (final_order rs) = mset rs"
proof -
  have "\<forall>r \<in> set (partition_rows ''src_ip'' rs). is_Str (cell_at r ''dest_ip'')"
    using assms set_partition_rows_subset [of "''src_ip''" rs] by blast
  then have "mset (final_order rs) = mset (partition_rows ''src_ip'' rs)"
    unfolding final_order_def by (rule mset_partition_rows)
  also have "\<dots> = mset rs"
    using assms by (intro mset_partition_rows) simp
  finally show ?thesis .
qed

lemma length_final_order:
  assumes "\<forall>r \<in> set rs. is_Str (cell_at r ''src_ip'') \<and> is_Str (cell_at r ''dest_ip'')"
  shows "length (final_order rs) = length rs"
  using mset_final_order [OF assms] by (metis size_mset)

lemma parsed_rows_Str:
  assumes "set ip_columns \<subseteq> set (groups p)"
  shows "\<forall>r \<in> set (map (parsed_row p raw) rs).
     is_Str (cell_at r ''src_ip'') \<and> is_Str (cell_at r ''dest_ip'')"
  using assms by (auto simp: cell_at_parsed_row ip_columns_def is_Str_def)

lemma parse_nrows:
  assumes "string_column raw df" "event_regex self EVENT_NAME = Some p"
    "set ip_columns \<subseteq> set (groups p)"
  shows "\<exists>out. snd (parse self df raw) = Inr out \<and> nrows out = nrows df"
  using length_final_order [OF parsed_rows_Str [OF assms(3)], of raw "rows df"]
  by (simp add: parse_result [OF assms] nrows_def)

lemma cell_at_final_row:
  "cell_at (final_row r) c =
     (if c \<in> set dropped_columns then Null
      else if c = ''dest_ip'' \<and> zero_len ''dest_ip'' r then cell_at r ''dest_ip2''
      else if c = ''src_ip'' \<and> zero_len ''src_ip'' r then cell_at r ''src_ip2''
      else cell_at r c)"
  by (auto simp: final_row_def cell_at_merged_row dropped_columns_def zero_len_def)

lemma fst_final_row [simp]: "fst (final_row r) = fst r"
  by (simp add: final_row_def)

lemma is_Str_not_Num: "is_Str v \<Longrightarrow> \<not> is_Num v"
  by (cases v) (simp_all add: is_Str_def)

lemma no_Num_Str:
  "\<forall>r \<in> set (rows df). is_Str (cell_at r c) \<Longrightarrow> no_Num c df"
  by (auto simp: no_Num_def dest: is_Str_not_Num)

text \<open>
  C2. On a dataset whose address columns exist and whose primary fields are strings (as
  they are after extraction and null-filling), the post-processing returns exactly the
  rows it was given, each changed as follows and nothing else: a primary field (src_ip,
  dest_ip) that is the empty string takes the value its alternate (src_ip2, dest_ip2) had
  before the merge, verbatim, whatever that value is; a primary field that is not empty is
  kept.
\<close>

theorem fallback_fills_empty_primary:
  assumes cols: "set ip_columns \<subseteq> set (columns pd)"
    and strs: "\<forall>r \<in> set (rows pd). is_Str (cell_at r ''src_ip'') \<and> is_Str (cell_at r ''dest_ip'')"
  shows "\<exists>out. process_ip_fields pd = Inr out \<and>
      mset (rows out) = image_mset final_row (mset (rows pd)) \<and>
      (\<forall>r. fst (final_row r) = fst r \<and>
         cell_at (final_row r) ''src_ip'' =
           (if cell_at r ''src_ip'' = Str [] then cell_at r ''src_ip2'' else cell_at r ''src_ip'') \<and>
         cell_at (final_row r) ''dest_ip'' =
           (if cell_at r ''dest_ip'' = Str [] then cell_at r ''dest_ip2''
            else cell_at r ''dest_ip''))"
proof -
  have nn: "no_Num ''src_ip'' pd" "no_Num ''dest_ip'' pd"
    using strs by (simp_all add: no_Num_Str)
  have res: "process_ip_fields pd =
      Inr \<lparr>columns = filter (\<lambda>c. c \<notin> set dropped_columns) (columns pd),
           rows = map final_row (final_order (rows pd))\<rparr>"
    using cols nn by (rule process_ip_fields_result)
  have "mset (map final_row (final_order (rows pd))) = image_mset final_row (mset (rows pd))"
    by (simp add: mset_final_order [OF strs])
  moreover have "cell_at (final_row r) ''src_ip'' =
      (if cell_at r ''src_ip'' = Str [] then cell_at r ''src_ip2'' else cell_at r ''src_ip'')"
    and "cell_at (final_row r) ''dest_ip'' =
      (if cell_at r ''dest_ip'' = Str [] then cell_at r ''dest_ip2'' else cell_at r ''dest_ip'')"
    for r
    by (simp_all add: cell_at_final_row dropped_columns_def zero_len_def)
  ultimately show ?thesis
    by (simp add: res)
qed

theorem fallback_fills_empty_primary_witness:
  "\<exists>out. process_ip_fields merge_frame = Inr out \<and>
      mset (rows out) = image_mset final_row (mset (rows merge_frame)) \<and>
      cell_at (final_row (hd (rows merge_frame))) ''src_ip'' = Str ''10.0.0.3''"
proof -
  have cols: "set ip_columns \<subseteq> set (columns merge_frame)"
    by (simp add: ip_columns_def merge_frame_def)
  have strs: "\<forall>r \<in> set (rows merge_frame).
      is_Str (cell_at r ''src_ip'') \<and> is_Str (cell_at r ''dest_ip'')"
    by (simp add: merge_frame_def cell_at_def is_Str_def)
  from fallback_fills_empty_primary [OF cols strs]
  obtain out where out: "process_ip_fields merge_frame = Inr out"
    "mset (rows out) = image_mset final_row (mset (rows merge_frame))"
    and src: "cell_at (final_row (hd (rows merge_frame))) ''src_ip'' =
      (if cell_at (hd (rows merge_frame)) ''src_ip'' = Str []
       then cell_at (hd (rows merge_frame)) ''src_ip2''
       else cell_at (hd (rows merge_frame)) ''src_ip'')"
    by blast
  have "cell_at (hd (rows merge_frame)) ''src_ip'' = Str []"
    "cell_at (hd (rows merge_frame)) ''src_ip2'' = Str ''10.0.0.3''"
    by (simp_all add: merge_frame_def cell_at_def)
  with out src show ?thesis by simp
qed

lemma parse_ready_result:
  assumes "parse_ready self df raw p"
  shows "parse self df raw =
    (\<lparr>columns = columns df, rows = map (cleaned_row raw) (rows df)\<rparr>,
     Inr \<lparr>columns = filter (\<lambda>c. c \<notin> set dropped_columns) (groups p),
          rows = map final_row (final_order (map (parsed_row p raw) (rows df)))\<rparr>)"
  using assms by (intro parse_result) (auto simp: parse_ready_def list_all_iff)

lemma parse_Inr_ready:
  assumes "snd (parse self df raw) = Inr out"
  shows "\<exists>p. parse_ready self df raw p"
  using parse_fails [of raw df self] assms by (fastforce simp: parse_ready_def list_all_iff)

lemma demo_ready: "parse_ready demo_parser events_frame ''raw'' demo_pattern"
  by (simp add: parse_ready_def string_column_def events_frame_def no_Num_def cell_at_def
      demo_parser_def demo_pattern_def demo_groups_def ip_columns_def)

lemma final_rows_of_parsed:
  assumes gr: "set ip_columns \<subseteq> set (groups p)"
    and r: "r \<in> set (map final_row (final_order (map (parsed_row p raw) rs)))"
  shows "\<exists>x \<in> set rs. r = final_row (parsed_row p raw x)"
proof -
  have "set (final_order (map (parsed_row p raw) rs)) = set (map (parsed_row p raw) rs)"
    using mset_final_order [OF parsed_rows_Str [OF gr], of raw rs] by (metis set_mset_mset)
  with r show ?thesis by auto
qed

lemma final_parsed_cell_Str:
  assumes gr: "set ip_columns \<subseteq> set (groups p)"
    and c: "c \<in> set (groups p)" "c \<notin> set dropped_columns"
  shows "is_Str (cell_at (final_row (parsed_row p raw x)) c)"
  using assms
  by (auto simp: cell_at_final_row cell_at_parsed_row is_Str_def ip_columns_def)

lemma process_ip_fields_Inr:
  assumes "process_ip_fields pd = Inr out"
  shows "set ip_columns \<subseteq> set (columns pd)"
  using process_ip_fields_fails [of pd] assms by auto

lemma merge_keeps_strings:
  assumes strs: "\<forall>r \<in> set (rows pd). \<forall>c \<in> set (columns pd). is_Str (cell_at r c)"
    and out: "process_ip_fields pd = Inr out"
    and r: "r \<in> set (rows out)" and c: "c \<in> set (columns out)"
  shows "is_Str (cell_at r c)"
proof -
  have cols: "set ip_columns \<subseteq> set (columns pd)"
    using out by (rule process_ip_fields_Inr)
  then have four: "''src_ip'' \<in> set (columns pd)" "''src_ip2'' \<in> set (columns pd)"
    "''dest_ip'' \<in> set (columns pd)" "''dest_ip2'' \<in> set (columns pd)"
    by (simp_all add: ip_columns_def)
  have nn: "no_Num ''src_ip'' pd" "no_Num ''dest_ip'' pd"
    using strs four by (auto intro!: no_Num_Str)
  have o: "out = \<lparr>columns = filter (\<lambda>c. c \<notin> set dropped_columns) (columns pd),
          rows = map final_row (final_order (rows pd))\<rparr>"
    using process_ip_fields_result [OF cols nn] out by simp
  have "set (final_order (rows pd)) \<subseteq> set (rows pd)"
    unfolding final_order_def
    using set_partition_rows_subset [of "''dest_ip''" "partition_rows ''src_ip'' (rows pd)"]
      set_partition_rows_subset [of "''src_ip''" "rows pd"]
    by blast
  with r o obtain x where x: "x \<in> set (rows pd)" "r = final_row x" by auto
  from c o have cc: "c \<in> set (columns pd)" "c \<notin> set dropped_columns" by auto
  show ?thesis
    using strs x(1) cc four by (simp add: x(2) cell_at_final_row)
qed

lemma process_ip_field_Inr:
  assumes "process_ip_field ip pd = Inr out"
  shows "ip \<in> set (columns pd)" "ip @ ''2'' \<in> set (columns pd)" "no_Num ip pd"
  using process_ip_field_fails [of ip pd] assms by auto

lemma merged_row_nonzero:
  assumes "nonzero_len ip r"
  shows "merged_row ip r =
     (fst r, \<lambda>c. if c = ip @ ''_len'' \<or> c = ip @ ''2'' then None else snd r c)"
  using assms
  by (auto simp: merged_row_def nonzero_len_def zero_len_def fun_eq_iff split: cell.splits)

lemma nonzero_not_zero: "nonzero_len ip r \<Longrightarrow> \<not> zero_len ip r"
  by (auto simp: nonzero_len_def zero_len_def)

text \<open>
  C5. The dataset that \<open>parse\<close> returns has none of the columns src_ip2, dest_ip2,
  src_ip_len, dest_ip_len, and it has every other column of the pattern, in the pattern's
  order. Each round of the merge removes its alternate field and its length column whenever
  it returns, and keeps every other column; when every row's primary field is non-empty the
  rows come back in their order with nothing changed but these two fields removed.
\<close>

theorem helper_and_alternate_columns_removed:
  "(\<forall>out. snd (parse self df raw) = Inr out \<and> event_regex self EVENT_NAME = Some p \<longrightarrow>
      columns out = filter (\<lambda>c. c \<notin> set dropped_columns) (groups p) \<and>
      ''src_ip2'' \<notin> set (columns out) \<and> ''dest_ip2'' \<notin> set (columns out) \<and>
      ''src_ip_len'' \<notin> set (columns out) \<and> ''dest_ip_len'' \<notin> set (columns out)) \<and>
   (\<forall>out. process_ip_field ip pd = Inr out \<longrightarrow>
      columns out = filter (\<lambda>c. c \<noteq> ip @ ''_len'' \<and> c \<noteq> ip @ ''2'') (columns pd) \<and>
      ((\<forall>r \<in> set (rows pd). nonzero_len ip r) \<longrightarrow>
         rows out =
           map (\<lambda>r. (fst r, \<lambda>c. if c = ip @ ''_len'' \<or> c = ip @ ''2'' then None else snd r c))
             (rows pd))) \<and>
   (parse_ready self df raw p \<longrightarrow> (\<exists>out. snd (parse self df raw) = Inr out))"
proof (intro conjI allI impI)
  fix out
  assume a: "snd (parse self df raw) = Inr out \<and> event_regex self EVENT_NAME = Some p"
  then obtain p' where rdy: "parse_ready self df raw p'"
    using parse_Inr_ready by blast
  with a have "p' = p" by (simp add: parse_ready_def)
  with rdy a have c: "columns out = filter (\<lambda>c. c \<notin> set dropped_columns) (groups p)"
    by (auto simp: parse_ready_result)
  then show "columns out = filter (\<lambda>c. c \<notin> set dropped_columns) (groups p)" .
  from c show "''src_ip2'' \<notin> set (columns out)" "''dest_ip2'' \<notin> set (columns out)"
    "''src_ip_len'' \<notin> set (columns out)" "''dest_ip_len'' \<notin> set (columns out)"
    by (simp_all add: dropped_columns_def)
next
  fix out
  assume out: "process_ip_field ip pd = Inr out"
  note pre = process_ip_field_Inr [OF out]
  have res: "out = \<lparr>columns = filter (\<lambda>c. c \<noteq> ip @ ''_len'' \<and> c \<noteq> ip @ ''2'') (columns pd),
          rows = map (merged_row ip)
                   (filter (nonzero_len ip) (rows pd) @ filter (zero_len ip) (rows pd))\<rparr>"
    using process_ip_field_result [OF pre] out by simp
  then show "columns out = filter (\<lambda>c. c \<noteq> ip @ ''_len'' \<and> c \<noteq> ip @ ''2'') (columns pd)"
    by simp
  assume all: "\<forall>r \<in> set (rows pd). nonzero_len ip r"
  then have "filter (nonzero_len ip) (rows pd) = rows pd" "filter (zero_len ip) (rows pd) = []"
    by (auto simp: nonzero_not_zero)
  with res all show "rows out =
      map (\<lambda>r. (fst r, \<lambda>c. if c = ip @ ''_len'' \<or> c = ip @ ''2'' then None else snd r c)) (rows pd)"
    by (simp add: merged_row_nonzero)
next
  assume "parse_ready self df raw p"
  then show "\<exists>out. snd (parse self df raw) = Inr out"
    by (simp add: parse_ready_result)
qed

theorem helper_and_alternate_columns_removed_witness:
  "(\<exists>out. snd (parse demo_parser events_frame ''raw'') = Inr out \<and>
      columns out = [''src_ip'', ''dest_ip'']) \<and>
   (\<exists>out. process_ip_field ''src_ip'' all_filled_frame = Inr out \<and>
      columns out = [''src_ip''] \<and>
      map (\<lambda>r. (fst r, cell_at r ''src_ip'')) (rows out) =
        [(5, Str ''10.0.0.1''), (6, Str ''10.0.0.2'')])"
proof
  have ev: "event_regex demo_parser EVENT_NAME = Some demo_pattern"
    by (simp add: demo_parser_def)
  from helper_and_alternate_columns_removed
    [of demo_parser events_frame "''raw''" demo_pattern "''src_ip''" all_filled_frame]
    demo_ready ev
  obtain out where "snd (parse demo_parser events_frame ''raw'') = Inr out"
    "columns out = filter (\<lambda>c. c \<notin> set dropped_columns) (groups demo_pattern)"
    by blast
  then show "\<exists>out. snd (parse demo_parser events_frame ''raw'') = Inr out \<and>
      columns out = [''src_ip'', ''dest_ip'']"
    by (simp add: dropped_columns_def demo_pattern_def demo_groups_def)
next
  have pre: "''src_ip'' \<in> set (columns all_filled_frame)"
    "''src_ip'' @ ''2'' \<in> set (columns all_filled_frame)" "no_Num ''src_ip'' all_filled_frame"
    by (simp_all add: all_filled_frame_def no_Num_def cell_at_def)
  have all: "\<forall>r \<in> set (rows all_filled_frame). nonzero_len ''src_ip'' r"
    by (simp add: all_filled_frame_def nonzero_len_def cell_at_def)
  obtain out where out: "process_ip_field ''src_ip'' all_filled_frame = Inr out"
    using process_ip_field_result [OF pre] by blast
  note step = helper_and_alternate_columns_removed
    [of demo_parser events_frame "''raw''" demo_pattern "''src_ip''" all_filled_frame,
      THEN conjunct2, THEN conjunct1, rule_format, OF out]
  have c: "columns out =
      filter (\<lambda>c. c \<noteq> ''src_ip'' @ ''_len'' \<and> c \<noteq> ''src_ip'' @ ''2'') (columns all_filled_frame)"
    using step by (rule conjunct1)
  have r: "rows out =
      map (\<lambda>r. (fst r, \<lambda>c. if c = ''src_ip'' @ ''_len'' \<or> c = ''src_ip'' @ ''2'' then None
                           else snd r c)) (rows all_filled_frame)"
    using step [THEN conjunct2, THEN mp, OF all] .
  have c': "columns out = [''src_ip'']"
    unfolding c by (simp add: all_filled_frame_def)
  have r': "map (\<lambda>r. (fst r, cell_at r ''src_ip'')) (rows out) =
        [(5, Str ''10.0.0.1''), (6, Str ''10.0.0.2'')]"
    unfolding r by (simp add: all_filled_frame_def cell_at_def)
  show "\<exists>out. process_ip_field ''src_ip'' all_filled_frame = Inr out \<and>
      columns out = [''src_ip''] \<and>
      map (\<lambda>r. (fst r, cell_at r ''src_ip'')) (rows out) =
        [(5, Str ''10.0.0.1''), (6, Str ''10.0.0.2'')]"
    using out c' r' by (intro exI [of _ out] conjI)
qed

lemma captured_no_match:
  "matcher p (clean_text t) = None \<Longrightarrow> captured p (clean_cell (Str t)) g = []"
  by (simp add: captured_def)

text \<open>
  C7. A row whose text does not match the pattern is no error and is not dropped. When the
  text column exists and holds string data and the pattern has the four address groups,
  \<open>parse\<close> returns a dataset, whether or not rows match; it has the row count of the input;
  its rows are the images of the input rows, each with its index label; and the image of a
  row whose cleaned text the pattern does not match has the empty string in every column of
  the output.
\<close>

theorem non_matching_rows_come_out_empty:
  assumes rdy: "parse_ready self df raw p"
  shows "\<exists>out. snd (parse self df raw) = Inr out \<and> nrows out = nrows df \<and>
     mset (rows out) = image_mset (\<lambda>r. final_row (parsed_row p raw r)) (mset (rows df)) \<and>
     (\<forall>r \<in> set (rows df).
        fst (final_row (parsed_row p raw r)) = fst r \<and>
        (\<forall>t. cell_at r raw = Str t \<and> matcher p (clean_text t) = None \<longrightarrow>
           (\<forall>c \<in> set (columns out). cell_at (final_row (parsed_row p raw r)) c = Str [])))"
proof -
  have gr: "set ip_columns \<subseteq> set (groups p)"
    using rdy by (auto simp: parse_ready_def list_all_iff)
  define out where
    "out = \<lparr>columns = filter (\<lambda>c. c \<notin> set dropped_columns) (groups p),
            rows = map final_row (final_order (map (parsed_row p raw) (rows df)))\<rparr>"
  have res: "snd (parse self df raw) = Inr out"
    by (simp add: parse_ready_result [OF rdy] out_def)
  have m: "mset (final_order (map (parsed_row p raw) (rows df))) =
      mset (map (parsed_row p raw) (rows df))"
    by (rule mset_final_order [OF parsed_rows_Str [OF gr]])
  have n: "nrows out = nrows df"
    using length_final_order [OF parsed_rows_Str [OF gr], of raw "rows df"]
    by (simp add: out_def nrows_def)
  have ms: "mset (rows out) = image_mset (\<lambda>r. final_row (parsed_row p raw r)) (mset (rows df))"
    by (simp add: out_def m multiset.map_comp o_def)
  have e: "cell_at (final_row (parsed_row p raw r)) c = Str []"
    if "cell_at r raw = Str t" "matcher p (clean_text t) = None" "c \<in> set (columns out)"
    for r t c
  proof -
    have cap: "captured p (clean_cell (cell_at r raw)) g = []" for g
      using that(1,2) captured_no_match [of p t g] by simp
    from that(3) have "c \<in> set (groups p)" "c \<notin> set dropped_columns"
      by (auto simp: out_def)
    then show ?thesis
      using gr by (auto simp: cell_at_final_row cell_at_parsed_row cap ip_columns_def)
  qed
  show ?thesis
    using res n ms e by (intro exI [of _ out]) (auto simp: parsed_row_def)
qed

theorem non_matching_rows_come_out_empty_witness:
  "\<exists>out. snd (parse demo_parser events_frame ''raw'') = Inr out \<and> nrows out = 5 \<and>
     list_all (\<lambda>c. cell_at (final_row (parsed_row demo_pattern ''raw'' (rows events_frame ! 1))) c
                     = Str []) (columns out) \<and>
     list_all (\<lambda>c. cell_at (final_row (parsed_row demo_pattern ''raw'' (rows events_frame ! 3))) c
                     = Str []) (columns out)"
proof -
  have r1: "rows events_frame ! 1 \<in> set (rows events_frame)"
    and r3: "rows events_frame ! 3 \<in> set (rows events_frame)"
    by (simp_all add: events_frame_def)
  have t1: "cell_at (rows events_frame ! 1) ''raw'' = Str ''garbage line''"
    and t3: "cell_at (rows events_frame ! 3) ''raw'' = Str ''nothing to see''"
    by (simp_all add: events_frame_def cell_at_def)
  have m1: "matcher demo_pattern (clean_text ''garbage line'') = None"
    and m3: "matcher demo_pattern (clean_text ''nothing to see'') = None"
    by (simp_all add: demo_pattern_def demo_matcher_def clean_text_def backslash_def
        demo_groups_def)
  have n: "nrows events_frame = 5"
    by (simp add: nrows_def events_frame_def)
  from non_matching_rows_come_out_empty [OF demo_ready]
  obtain out where out: "snd (parse demo_parser events_frame ''raw'') = Inr out"
    "nrows out = nrows events_frame"
    and e: "\<forall>r \<in> set (rows events_frame).
        fst (final_row (parsed_row demo_pattern ''raw'' r)) = fst r \<and>
        (\<forall>t. cell_at r ''raw'' = Str t \<and> matcher demo_pattern (clean_text t) = None \<longrightarrow>
           (\<forall>c \<in> set (columns out).
              cell_at (final_row (parsed_row demo_pattern ''raw'' r)) c = Str []))"
    by blast
  from e r1 t1 m1 have "\<forall>c \<in> set (columns out).
      cell_at (final_row (parsed_row demo_pattern ''raw'' (rows events_frame ! 1))) c = Str []"
    by blast
  moreover from e r3 t3 m3 have "\<forall>c \<in> set (columns out).
      cell_at (final_row (parsed_row demo_pattern ''raw'' (rows events_frame ! 3))) c = Str []"
    by blast
  ultimately show ?thesis
    using out n by (auto simp: list_all_iff)
qed

lemma merged_row_nonzero':
  "nonzero_len ip r \<Longrightarrow> merged_row ip r = drop_helpers ip r"
  by (simp add: merged_row_nonzero drop_helpers_def)

lemma merged_row_zero:
  "zero_len ip r \<Longrightarrow> merged_row ip r = drop_helpers ip (overwritten ip r)"
  by (auto simp: merged_row_def drop_helpers_def overwritten_def fun_eq_iff)

lemma process_ip_field_rows:
  assumes "ip \<in> set (columns pd)" "ip @ ''2'' \<in> set (columns pd)" "no_Num ip pd"
  shows "\<exists>out. process_ip_field ip pd = Inr out \<and>
     columns out = filter (\<lambda>c. c \<noteq> ip @ ''_len'' \<and> c \<noteq> ip @ ''2'') (columns pd) \<and>
     rows out = map (drop_helpers ip) (filter (nonzero_len ip) (rows pd)) @
                map (\<lambda>r. drop_helpers ip (overwritten ip r)) (filter (zero_len ip) (rows pd))"
  by (simp add: process_ip_field_result [OF assms] merged_row_nonzero' merged_row_zero)

lemma groups_are_masks:
  assumes ip: "ip \<in> set (columns pd)" and nn: "no_Num ip pd"
  shows "\<exists>lens l. bind_err (getitem pd ip) str_len = Inr lens \<and>
     getitem (setitem pd (ip @ ''_len'') lens) (ip @ ''_len'') = Inr l \<and>
     mask_rows (setitem pd (ip @ ''_len'') lens) (eq_scalar l 0) = zero_group ip pd \<and>
     mask_rows (setitem pd (ip @ ''_len'') lens) (ne_scalar l 0) = nonzero_group ip pd"
proof -
  define df1 where "df1 = \<lparr>columns = helper_columns ip pd, rows = map (with_len ip) (rows pd)\<rparr>"
  define lens where
    "lens = map (\<lambda>r. case cell_at r ip of Str t \<Rightarrow> Num (int (length t)) | _ \<Rightarrow> Null) (rows pd)"
  have s: "getitem pd ip = Inr (map (\<lambda>r. cell_at r ip) (rows pd))"
    using ip by (rule getitem_Inr)
  have "str_len (map (\<lambda>r. cell_at r ip) (rows pd)) = Inr lens"
    unfolding lens_def using nn by (intro str_len_map) (simp add: no_Num_def)
  with s have a: "bind_err (getitem pd ip) str_len = Inr lens" by simp
  have set1: "setitem pd (ip @ ''_len'') lens = df1"
    by (simp add: lens_def setitem_map df1_def helper_columns_def with_len_def)
  have l: "getitem df1 (ip @ ''_len'') = Inr (map (\<lambda>r. cell_at r (ip @ ''_len'')) (rows df1))"
    by (rule getitem_Inr) (simp add: df1_def helper_columns_facts)
  have m0: "mask_rows df1 (eq_scalar (map (\<lambda>r. cell_at r (ip @ ''_len'')) (rows df1)) 0)
      = zero_group ip pd"
    by (simp add: eq_scalar_map mask_rows_map2 df1_def zero_group_def o_def zero_with_len)
  have m1: "mask_rows df1 (ne_scalar (map (\<lambda>r. cell_at r (ip @ ''_len'')) (rows df1)) 0)
      = nonzero_group ip pd"
    by (simp add: ne_scalar_map mask_rows_map2 df1_def nonzero_group_def o_def nonzero_with_len)
  show ?thesis
    using a l m0 m1 by (intro exI [of _ lens] exI [of _ "map (\<lambda>r. cell_at r (ip @ ''_len'')) (rows df1)"])
      (simp add: set1)
qed

lemma getitem_zero_group:
  assumes "ip @ ''2'' \<in> set (columns pd)"
  shows "getitem (zero_group ip pd) (ip @ ''2'') =
     Inr (map (\<lambda>r. cell_at r (ip @ ''2'')) (rows (zero_group ip pd)))"
  using assms by (intro getitem_Inr) (simp add: zero_group_def helper_columns_def)

text \<open>
  C6. In one round of the merge, on a dataset that has the primary field as string data
  and the alternate field: the zero-length group and the non-empty group are the two masked
  frames of the source. If the zero-length group is empty, the round returns the non-empty
  group with the alternate and the length column dropped and nothing else done to it. If
  the non-empty group is empty and the zero-length group is not, the round returns the
  zero-length group with its primary overwritten by its alternate, the alternate and the
  length column dropped.
\<close>

theorem merge_round_edge_cases:
  assumes ip: "ip \<in> set (columns pd)" and ip2: "ip @ ''2'' \<in> set (columns pd)"
    and nn: "no_Num ip pd"
  shows "(\<exists>lens l. bind_err (getitem pd ip) str_len = Inr lens \<and>
       getitem (setitem pd (ip @ ''_len'') lens) (ip @ ''_len'') = Inr l \<and>
       mask_rows (setitem pd (ip @ ''_len'') lens) (eq_scalar l 0) = zero_group ip pd \<and>
       mask_rows (setitem pd (ip @ ''_len'') lens) (ne_scalar l 0) = nonzero_group ip pd) \<and>
     (df_empty (zero_group ip pd) \<longrightarrow>
        process_ip_field ip pd = drop_columns (nonzero_group ip pd) [ip @ ''_len'', ip @ ''2''] \<and>
        (\<exists>out. process_ip_field ip pd = Inr out \<and>
           rows out = map (drop_helpers ip) (filter (nonzero_len ip) (rows pd)))) \<and>
     (df_empty (nonzero_group ip pd) \<and> \<not> df_empty (zero_group ip pd) \<longrightarrow>
        process_ip_field ip pd =
          bind_err (getitem (zero_group ip pd) (ip @ ''2'')) (\<lambda>s2.
            drop_columns (setitem (zero_group ip pd) ip s2) [ip @ ''_len'', ip @ ''2'']) \<and>
        (\<exists>out. process_ip_field ip pd = Inr out \<and>
           rows out = map (\<lambda>r. drop_helpers ip (overwritten ip r))
                        (filter (zero_len ip) (rows pd))))"
proof (intro conjI impI)
  show "\<exists>lens l. bind_err (getitem pd ip) str_len = Inr lens \<and>
       getitem (setitem pd (ip @ ''_len'') lens) (ip @ ''_len'') = Inr l \<and>
       mask_rows (setitem pd (ip @ ''_len'') lens) (eq_scalar l 0) = zero_group ip pd \<and>
       mask_rows (setitem pd (ip @ ''_len'') lens) (ne_scalar l 0) = nonzero_group ip pd"
    using ip nn by (rule groups_are_masks)
next
  assume z: "df_empty (zero_group ip pd)"
  show "process_ip_field ip pd = drop_columns (nonzero_group ip pd) [ip @ ''_len'', ip @ ''2'']"
    unfolding process_ip_field_steps [OF ip nn] using z by simp
  from z have "filter (zero_len ip) (rows pd) = []"
    by (simp add: df_empty_groups)
  then show "\<exists>out. process_ip_field ip pd = Inr out \<and>
      rows out = map (drop_helpers ip) (filter (nonzero_len ip) (rows pd))"
    using process_ip_field_rows [OF ip ip2 nn] by auto
next
  assume a: "df_empty (nonzero_group ip pd) \<and> \<not> df_empty (zero_group ip pd)"
  show "process_ip_field ip pd =
      bind_err (getitem (zero_group ip pd) (ip @ ''2'')) (\<lambda>s2.
        drop_columns (setitem (zero_group ip pd) ip s2) [ip @ ''_len'', ip @ ''2''])"
    unfolding process_ip_field_steps [OF ip nn] using a
    by (simp add: getitem_zero_group [OF ip2] Let_def)
  from a have "filter (nonzero_len ip) (rows pd) = []"
    by (simp add: df_empty_groups)
  then show "\<exists>out. process_ip_field ip pd = Inr out \<and>
      rows out = map (\<lambda>r. drop_helpers ip (overwritten ip r)) (filter (zero_len ip) (rows pd))"
    using process_ip_field_rows [OF ip ip2 nn] by auto
qed

theorem merge_round_edge_cases_witness:
  "(\<exists>out. process_ip_field ''src_ip'' all_empty_frame = Inr out \<and>
      map (\<lambda>r. (fst r, cell_at r ''src_ip'')) (rows out) = [(7, Str ''10.0.0.3''), (8, Str [])]) \<and>
   (\<exists>out. process_ip_field ''src_ip'' all_filled_frame = Inr out \<and>
      map (\<lambda>r. (fst r, cell_at r ''src_ip'')) (rows out) =
        [(5, Str ''10.0.0.1''), (6, Str ''10.0.0.2'')])"
proof
  have ip: "''src_ip'' \<in> set (columns all_empty_frame)"
    and ip2: "''src_ip'' @ ''2'' \<in> set (columns all_empty_frame)"
    and nn: "no_Num ''src_ip'' all_empty_frame"
    by (simp_all add: all_empty_frame_def no_Num_def cell_at_def)
  have z: "filter (zero_len ''src_ip'') (rows all_empty_frame) = rows all_empty_frame"
    and n: "filter (nonzero_len ''src_ip'') (rows all_empty_frame) = []"
    by (simp_all add: all_empty_frame_def zero_len_def nonzero_len_def cell_at_def)
  have e: "df_empty (nonzero_group ''src_ip'' all_empty_frame) \<and>
      \<not> df_empty (zero_group ''src_ip'' all_empty_frame)"
    by (simp add: df_empty_groups z n) (simp add: all_empty_frame_def)
  from merge_round_edge_cases [OF ip ip2 nn] e
  obtain out where "process_ip_field ''src_ip'' all_empty_frame = Inr out"
    "rows out = map (\<lambda>r. drop_helpers ''src_ip'' (overwritten ''src_ip'' r))
        (filter (zero_len ''src_ip'') (rows all_empty_frame))"
    by blast
  then show "\<exists>out. process_ip_field ''src_ip'' all_empty_frame = Inr out \<and>
      map (\<lambda>r. (fst r, cell_at r ''src_ip'')) (rows out) = [(7, Str ''10.0.0.3''), (8, Str [])]"
    by (simp add: z) (simp add: all_empty_frame_def drop_helpers_def overwritten_def cell_at_def)
next
  have ip: "''src_ip'' \<in> set (columns all_filled_frame)"
    and ip2: "''src_ip'' @ ''2'' \<in> set (columns all_filled_frame)"
    and nn: "no_Num ''src_ip'' all_filled_frame"
    by (simp_all add: all_filled_frame_def no_Num_def cell_at_def)
  have z: "filter (zero_len ''src_ip'') (rows all_filled_frame) = []"
    and n: "filter (nonzero_len ''src_ip'') (rows all_filled_frame) = rows all_filled_frame"
    by (simp_all add: all_filled_frame_def zero_len_def nonzero_len_def cell_at_def)
  have e: "df_empty (zero_group ''src_ip'' all_filled_frame)"
    by (simp add: df_empty_groups z)
  from merge_round_edge_cases [OF ip ip2 nn] e
  obtain out where "process_ip_field ''src_ip'' all_filled_frame = Inr out"
    "rows out = map (drop_helpers ''src_ip'')
        (filter (nonzero_len ''src_ip'') (rows all_filled_frame))"
    by blast
  then show "\<exists>out. process_ip_field ''src_ip'' all_filled_frame = Inr out \<and>
      map (\<lambda>r. (fst r, cell_at r ''src_ip'')) (rows out) =
        [(5, Str ''10.0.0.1''), (6, Str ''10.0.0.2'')]"
    by (simp add: n) (simp add: all_filled_frame_def drop_helpers_def cell_at_def)
qed

lemma process_ip_fields_seq:
  "process_ip_fields pd =
     bind_err (process_ip_field ''src_ip'' pd) (process_ip_field ''dest_ip'')"
  by (cases "process_ip_field ''src_ip'' pd") (simp_all add: process_ip_fields_def bind_err_def
      split: sum.splits)

lemma parse_calls_merge_once:
  assumes "parse_ready self df raw p"
  shows "snd (parse self df raw) =
     process_ip_fields \<lparr>columns = groups p, rows = map (parsed_row p raw) (rows df)\<rparr>"
proof -
  have raw: "string_column raw df" and ev: "event_regex self EVENT_NAME = Some p"
    using assms by (simp_all add: parse_ready_def)
  define P where "P = \<lparr>columns = groups p, rows = map (parsed_row p raw) (rows df)\<rparr>"
  define C where "C = \<lparr>columns = columns df, rows = map (cleaned_row raw) (rows df)\<rparr>"
  have ef: "bind_err (parse_raw_event self C raw EVENT_NAME)
      (\<lambda>parsed_dataframe. Inr (fillna parsed_dataframe (Str []))) = Inr P"
    using extract_fill [OF ev raw] by (simp add: P_def C_def)
  then obtain pd where pd: "parse_raw_event self C raw EVENT_NAME = Inr pd"
    by (cases "parse_raw_event self C raw EVENT_NAME") simp_all
  with ef have fill: "fillna pd (Str []) = P" by simp
  show ?thesis
    by (simp add: parse_def clean_step [OF raw] Let_def C_def [symmetric] pd fill P_def [symmetric])
qed

lemma demo_labels:
  "map_sum id (\<lambda>d. map fst (rows d)) (snd (parse demo_parser events_frame ''raw'')) =
     Inr [0, 4, 1, 2, 3]"
  by code_simp

text \<open>
  C9. The post-processing is the round for src_ip followed by the round for dest_ip on its
  result, each once, and \<open>parse\<close> runs it once, on the null-filled extraction. A round on a
  dataset with the primary field as string data and the alternate field present, whose two
  groups are both non-empty, returns the concatenation of the non-empty group and the
  overwritten zero-length group: first the rows with a non-empty primary, then the rows
  with an empty one, each part in its own order. Hence there are inputs whose rows come
  out in another order than they went in.
\<close>

theorem merge_order_and_reordering:
  "process_ip_fields pd =
     bind_err (process_ip_field ''src_ip'' pd) (process_ip_field ''dest_ip'') \<and>
   (parse_ready self df raw p \<longrightarrow>
      snd (parse self df raw) =
        process_ip_fields \<lparr>columns = groups p, rows = map (parsed_row p raw) (rows df)\<rparr>) \<and>
   (ip \<in> set (columns pd) \<and> ip @ ''2'' \<in> set (columns pd) \<and> no_Num ip pd \<and>
    \<not> df_empty (zero_group ip pd) \<and> \<not> df_empty (nonzero_group ip pd) \<longrightarrow>
      process_ip_field ip pd =
        bind_err (getitem (zero_group ip pd) (ip @ ''2'')) (\<lambda>s2.
          drop_columns (concat_frames (nonzero_group ip pd) (setitem (zero_group ip pd) ip s2))
            [ip @ ''_len'', ip @ ''2'']) \<and>
      (\<exists>out. process_ip_field ip pd = Inr out \<and>
         rows out = map (drop_helpers ip) (filter (nonzero_len ip) (rows pd)) @
                    map (\<lambda>r. drop_helpers ip (overwritten ip r))
                      (filter (zero_len ip) (rows pd)))) \<and>
   (\<exists>self' df' raw' out. snd (parse self' df' raw') = Inr out \<and>
      map fst (rows out) \<noteq> map fst (rows df'))"
proof (intro conjI impI)
  show "process_ip_fields pd =
      bind_err (process_ip_field ''src_ip'' pd) (process_ip_field ''dest_ip'')"
    by (rule process_ip_fields_seq)
next
  assume "parse_ready self df raw p"
  then show "snd (parse self df raw) =
      process_ip_fields \<lparr>columns = groups p, rows = map (parsed_row p raw) (rows df)\<rparr>"
    by (rule parse_calls_merge_once)
next
  assume a: "ip \<in> set (columns pd) \<and> ip @ ''2'' \<in> set (columns pd) \<and> no_Num ip pd \<and>
    \<not> df_empty (zero_group ip pd) \<and> \<not> df_empty (nonzero_group ip pd)"
  then have ip: "ip \<in> set (columns pd)" and ip2: "ip @ ''2'' \<in> set (columns pd)"
    and nn: "no_Num ip pd" by simp_all
  show "process_ip_field ip pd =
      bind_err (getitem (zero_group ip pd) (ip @ ''2'')) (\<lambda>s2.
        drop_columns (concat_frames (nonzero_group ip pd) (setitem (zero_group ip pd) ip s2))
          [ip @ ''_len'', ip @ ''2''])"
    unfolding process_ip_field_steps [OF ip nn] using a
    by (simp add: getitem_zero_group [OF ip2] Let_def)
  show "\<exists>out. process_ip_field ip pd = Inr out \<and>
      rows out = map (drop_helpers ip) (filter (nonzero_len ip) (rows pd)) @
                 map (\<lambda>r. drop_helpers ip (overwritten ip r)) (filter (zero_len ip) (rows pd))"
    using process_ip_field_rows [OF ip ip2 nn] by auto
next
  obtain out where out: "snd (parse demo_parser events_frame ''raw'') = Inr out"
    by (simp add: parse_ready_result [OF demo_ready])
  with demo_labels have "map fst (rows out) = [0, 4, 1, 2, 3]" by simp
  moreover have "map fst (rows events_frame) = [0, 1, 2, 3, 4]"
    by (simp add: events_frame_def)
  ultimately have "map fst (rows out) \<noteq> map fst (rows events_frame)" by simp
  with out show "\<exists>self' df' raw' out. snd (parse self' df' raw') = Inr out \<and>
      map fst (rows out) \<noteq> map fst (rows df')"
    by blast
qed

theorem merge_order_and_reordering_witness:
  "\<exists>out. process_ip_field ''src_ip'' merge_frame = Inr out \<and> map fst (rows out) = [1, 0, 2]"
proof -
  have z: "filter (zero_len ''src_ip'') (rows merge_frame) =
      [rows merge_frame ! 0, rows merge_frame ! 2]"
    and n: "filter (nonzero_len ''src_ip'') (rows merge_frame) = [rows merge_frame ! 1]"
    by (simp_all add: merge_frame_def zero_len_def nonzero_len_def cell_at_def)
  have h: "''src_ip'' \<in> set (columns merge_frame) \<and>
      ''src_ip'' @ ''2'' \<in> set (columns merge_frame) \<and> no_Num ''src_ip'' merge_frame \<and>
      \<not> df_empty (zero_group ''src_ip'' merge_frame) \<and>
      \<not> df_empty (nonzero_group ''src_ip'' merge_frame)"
    by (simp add: df_empty_groups z n) (simp add: merge_frame_def no_Num_def cell_at_def)
  from merge_order_and_reordering
    [of merge_frame demo_parser events_frame "''raw''" demo_pattern "''src_ip''"] h
  obtain out where "process_ip_field ''src_ip'' merge_frame = Inr out"
    "rows out = map (drop_helpers ''src_ip'') (filter (nonzero_len ''src_ip'') (rows merge_frame)) @
       map (\<lambda>r. drop_helpers ''src_ip'' (overwritten ''src_ip'' r))
         (filter (zero_len ''src_ip'') (rows merge_frame))"
    by blast
  then show ?thesis
    by (simp add: z n) (simp add: merge_frame_def drop_helpers_def overwritten_def)
qed

text \<open>
  C10. \<open>parse\<close> writes to the dataframe it is given. When the text column exists and
  holds string data, the caller's dataframe after the call has that column replaced by the
  cleaned text, backslashes removed, whatever happens later in the call; its other columns,
  its column list and its row labels are as before. When the column is absent or is not
  string data, the caller's dataframe is untouched.
\<close>

theorem parse_overwrites_text_column:
  "fst (parse self df raw) =
     (if string_column raw df
      then setitem df raw (map (\<lambda>r. clean_cell (cell_at r raw)) (rows df)) else df) \<and>
   (string_column raw df \<longrightarrow>
      getitem (fst (parse self df raw)) raw = Inr (map (\<lambda>r. clean_cell (cell_at r raw)) (rows df)) \<and>
      columns (fst (parse self df raw)) = columns df \<and>
      map fst (rows (fst (parse self df raw))) = map fst (rows df) \<and>
      (\<forall>c. c \<noteq> raw \<longrightarrow> getitem (fst (parse self df raw)) c = getitem df c))"
proof (cases "string_column raw df")
  case False
  then obtain e where "bind_err (getitem df raw) str_replace_backslash = Inl e"
    using clean_step_fails by blast
  with False show ?thesis by (simp add: parse_def)
next
  case True
  have f: "fst (parse self df raw) = \<lparr>columns = columns df, rows = map (cleaned_row raw) (rows df)\<rparr>"
    by (simp add: parse_def clean_step [OF True] Let_def)
  have other: "cell_at (cleaned_row raw r) c = cell_at r c" if "c \<noteq> raw" for r c
    using that by (simp add: cleaned_row_def cell_at_def)
  from True have rawc: "raw \<in> set (columns df)" by (simp add: string_column_def)
  show ?thesis
    using True rawc
    by (simp add: f clean_step(2) [OF True] getitem_def o_def other)
qed

theorem parse_overwrites_text_column_witness:
  "getitem (fst (parse demo_parser events_frame ''raw'')) ''raw'' =
     Inr [Str ''src_ip=10.0.0.1 dest_ip=10.0.0.9'', Str ''garbage line'',
          Str ''src_ip= src_ip2=10.0.0.3 dest_ip= dest_ip2=10.0.0.4'', Str ''nothing to see'',
          Str ''src_ip=10.0.0.1 dest_ip= dest_ip2=10.0.0.2''] \<and>
   getitem (fst (parse demo_parser events_frame ''raw'')) ''host'' = getitem events_frame ''host''"
proof -
  have s: "string_column ''raw'' events_frame"
    using demo_ready by (simp add: parse_ready_def)
  have c: "map (\<lambda>r. clean_cell (cell_at r ''raw'')) (rows events_frame) =
     [Str ''src_ip=10.0.0.1 dest_ip=10.0.0.9'', Str ''garbage line'',
      Str ''src_ip= src_ip2=10.0.0.3 dest_ip= dest_ip2=10.0.0.4'', Str ''nothing to see'',
      Str ''src_ip=10.0.0.1 dest_ip= dest_ip2=10.0.0.2'']"
    by (simp add: events_frame_def cell_at_def clean_text_def scenario_text_def backslash_def)
  from parse_overwrites_text_column [of demo_parser events_frame "''raw''"] s
  have "getitem (fst (parse demo_parser events_frame ''raw'')) ''raw'' =
      Inr (map (\<lambda>r. clean_cell (cell_at r ''raw'')) (rows events_frame))"
    and "\<forall>c. c \<noteq> ''raw'' \<longrightarrow>
      getitem (fst (parse demo_parser events_frame ''raw'')) c = getitem events_frame c"
    by blast+
  then show ?thesis
    unfolding c by simp
qed

lemma clean_text_no_backslash: "backslash \<notin> set (clean_text t)"
  by (simp add: clean_text_def)

lemma clean_text_collapse_doubled: "clean_text (collapse_doubled t) = clean_text t"
  by (induction t rule: collapse_doubled.induct) (simp_all add: clean_text_def)

lemma clean_text_id: "backslash \<notin> set t \<Longrightarrow> clean_text t = t"
  by (induction t) (auto simp: clean_text_def)

lemma clean_text_scenario: "clean_text scenario_text = cleaned_scenario_text"
  by (simp add: clean_text_def scenario_text_def cleaned_scenario_text_def backslash_def)

lemma parsed_row_fun:
  "parsed_row p raw =
     (\<lambda>r. (fst r, \<lambda>g. if g \<in> set (groups p)
                then Some (Str (captured p (clean_cell (cell_at r raw)) g)) else None))"
  by (simp add: fun_eq_iff parsed_row_def)

lemma final_row_in_output:
  assumes rdy: "parse_ready self df raw p" and r: "r \<in> set (rows df)"
  shows "\<exists>out. snd (parse self df raw) = Inr out \<and>
     final_row (parsed_row p raw r) \<in> set (rows out)"
proof -
  have gr: "set ip_columns \<subseteq> set (groups p)"
    using rdy by (auto simp: parse_ready_def list_all_iff)
  have "set (final_order (map (parsed_row p raw) (rows df))) =
      set (map (parsed_row p raw) (rows df))"
    using mset_final_order [OF parsed_rows_Str [OF gr], of raw "rows df"]
    by (metis set_mset_mset)
  with r show ?thesis
    by (simp add: parse_ready_result [OF rdy])
qed

text \<open>
  C4 (amended). Before pattern matching, the cleaner removes every backslash character of
  the raw text, doubled or not, and no other character: the cleaned text has no backslash
  left and is the raw text with its backslashes struck out. So every doubled backslash
  collapses to nothing, and where removing the doubled backslashes leaves no backslash at
  all, the cleaner does exactly that. The extraction reads the cleaned text. A raw row
  \<open>src_ip=\\10.0.0.1 dest_ip= dest_ip2=10.0.0.2\<close>, under a pattern that captures
  src_ip \<open>10.0.0.1\<close>, an empty or absent dest_ip and dest_ip2 \<open>10.0.0.2\<close> from the cleaned
  text, comes out with src_ip \<open>10.0.0.1\<close> and dest_ip \<open>10.0.0.2\<close>.
\<close>

theorem cleaner_strikes_out_backslashes:
  "backslash \<notin> set (clean_text t) \<and>
   clean_text t = filter (\<lambda>x. x \<noteq> backslash) t \<and>
   clean_text (collapse_doubled t) = clean_text t \<and>
   (backslash \<notin> set (collapse_doubled t) \<longrightarrow> clean_text t = collapse_doubled t) \<and>
   (string_column raw df \<longrightarrow>
      bind_err (getitem df raw) str_replace_backslash =
        Inr (map (\<lambda>r. clean_cell (cell_at r raw)) (rows df))) \<and>
   (parse_ready self df raw p \<longrightarrow>
      snd (parse self df raw) =
        process_ip_fields
          \<lparr>columns = groups p,
           rows = map (\<lambda>r. (fst r, \<lambda>g. if g \<in> set (groups p)
                      then Some (Str (captured p (clean_cell (cell_at r raw)) g))
                      else None)) (rows df)\<rparr>) \<and>
   (parse_ready self df raw p \<and> r \<in> set (rows df) \<and> cell_at r raw = Str scenario_text \<and>
    matcher p cleaned_scenario_text = Some caps \<and> caps ''src_ip'' = Some ''10.0.0.1'' \<and>
    (caps ''dest_ip'' = None \<or> caps ''dest_ip'' = Some []) \<and>
    caps ''dest_ip2'' = Some ''10.0.0.2'' \<longrightarrow>
      (\<exists>out. snd (parse self df raw) = Inr out \<and>
         (\<exists>r' \<in> set (rows out). fst r' = fst r \<and> cell_at r' ''src_ip'' = Str ''10.0.0.1'' \<and>
            cell_at r' ''dest_ip'' = Str ''10.0.0.2'')))"
proof (intro conjI impI)
  show "backslash \<notin> set (clean_text t)" by (rule clean_text_no_backslash)
  show "clean_text t = filter (\<lambda>x. x \<noteq> backslash) t" by (simp add: clean_text_def)
  show "clean_text (collapse_doubled t) = clean_text t" by (rule clean_text_collapse_doubled)
next
  assume "backslash \<notin> set (collapse_doubled t)"
  then show "clean_text t = collapse_doubled t"
    using clean_text_collapse_doubled [of t] clean_text_id [of "collapse_doubled t"] by simp
next
  assume "string_column raw df"
  then show "bind_err (getitem df raw) str_replace_backslash =
      Inr (map (\<lambda>r. clean_cell (cell_at r raw)) (rows df))"
    by (rule clean_step(1))
next
  assume "parse_ready self df raw p"
  then show "snd (parse self df raw) =
      process_ip_fields
        \<lparr>columns = groups p,
         rows = map (\<lambda>r. (fst r, \<lambda>g. if g \<in> set (groups p)
                    then Some (Str (captured p (clean_cell (cell_at r raw)) g))
                    else None)) (rows df)\<rparr>"
    using parse_calls_merge_once [of self df raw p] unfolding parsed_row_fun by simp
next
  assume a: "parse_ready self df raw p \<and> r \<in> set (rows df) \<and> cell_at r raw = Str scenario_text \<and>
    matcher p cleaned_scenario_text = Some caps \<and> caps ''src_ip'' = Some ''10.0.0.1'' \<and>
    (caps ''dest_ip'' = None \<or> caps ''dest_ip'' = Some []) \<and>
    caps ''dest_ip2'' = Some ''10.0.0.2''"
  then have rdy: "parse_ready self df raw p" and r: "r \<in> set (rows df)" by simp_all
  have gr: "set ip_columns \<subseteq> set (groups p)"
    using rdy by (auto simp: parse_ready_def list_all_iff)
  from a have cap: "captured p (clean_cell (cell_at r raw)) ''src_ip'' = ''10.0.0.1''"
    "captured p (clean_cell (cell_at r raw)) ''dest_ip'' = []"
    "captured p (clean_cell (cell_at r raw)) ''dest_ip2'' = ''10.0.0.2''"
    by (auto simp: captured_def clean_text_scenario)
  have "cell_at (final_row (parsed_row p raw r)) ''src_ip'' = Str ''10.0.0.1''"
    "cell_at (final_row (parsed_row p raw r)) ''dest_ip'' = Str ''10.0.0.2''"
    using gr cap
    by (simp_all add: cell_at_final_row cell_at_parsed_row dropped_columns_def zero_len_def
        ip_columns_def)
  with final_row_in_output [OF rdy r]
  show "\<exists>out. snd (parse self df raw) = Inr out \<and>
      (\<exists>r' \<in> set (rows out). fst r' = fst r \<and> cell_at r' ''src_ip'' = Str ''10.0.0.1'' \<and>
         cell_at r' ''dest_ip'' = Str ''10.0.0.2'')"
    by (auto simp: parsed_row_def intro!: bexI [of _ "final_row (parsed_row p raw r)"])
qed

lemma scenario_ready: "parse_ready demo_parser scenario_frame ''raw'' demo_pattern"
  by (simp add: parse_ready_def string_column_def scenario_frame_def no_Num_def cell_at_def
      demo_parser_def demo_pattern_def demo_groups_def ip_columns_def)

theorem cleaner_strikes_out_backslashes_witness:
  "\<exists>out. snd (parse demo_parser scenario_frame ''raw'') = Inr out \<and>
     list_ex (\<lambda>r'. fst r' = 0 \<and> cell_at r' ''src_ip'' = Str ''10.0.0.1'' \<and>
        cell_at r' ''dest_ip'' = Str ''10.0.0.2'') (rows out)"
proof -
  define toks where "toks = split_on CHR '' '' cleaned_scenario_text"
  have toks: "toks = [''src_ip=10.0.0.1'', ''dest_ip='', ''dest_ip2=10.0.0.2'']"
    by (simp add: toks_def cleaned_scenario_text_def)
  have m: "matcher demo_pattern cleaned_scenario_text = Some (key_value toks)"
    by (simp add: demo_pattern_def demo_matcher_def toks_def [symmetric] Let_def)
      (simp add: toks demo_groups_def)
  have k: "key_value toks ''src_ip'' = Some ''10.0.0.1''"
    "key_value toks ''dest_ip'' = Some []"
    "key_value toks ''dest_ip2'' = Some ''10.0.0.2''"
    by (simp_all add: toks)
  have r: "(0, Map.empty(''raw'' \<mapsto> Str scenario_text)) \<in> set (rows scenario_frame)"
    "cell_at (0, Map.empty(''raw'' \<mapsto> Str scenario_text)) ''raw'' = Str scenario_text"
    by (simp_all add: scenario_frame_def cell_at_def)
  from cleaner_strikes_out_backslashes
    [of "[]" "''raw''" scenario_frame demo_parser demo_pattern
      "(0, Map.empty(''raw'' \<mapsto> Str scenario_text))" "key_value toks"]
    scenario_ready r m k
  obtain out where "snd (parse demo_parser scenario_frame ''raw'') = Inr out"
    "\<exists>r' \<in> set (rows out). fst r' = fst (0::nat, Map.empty(''raw'' \<mapsto> Str scenario_text)) \<and>
       cell_at r' ''src_ip'' = Str ''10.0.0.1'' \<and> cell_at r' ''dest_ip'' = Str ''10.0.0.2''"
    by blast
  then show ?thesis
    by (auto simp: list_ex_iff)
qed

text \<open>
  The claim as it stands fails: the text \<open>a\b\<close> has no doubled backslash, so collapsing
  doubled backslashes leaves it as it is, yet the cleaner of the source returns \<open>ab\<close>.
\<close>

theorem cleaner_removes_lone_backslash:
  "str_replace_backslash [Str [CHR ''a'', backslash, CHR ''b'']] = Inr [Str ''ab''] \<and>
   collapse_doubled [CHR ''a'', backslash, CHR ''b''] = [CHR ''a'', backslash, CHR ''b''] \<and>
   clean_text [CHR ''a'', backslash, CHR ''b''] \<noteq> collapse_doubled [CHR ''a'', backslash, CHR ''b'']"
  by (simp add: str_replace_backslash_def clean_text_def backslash_def)

text \<open>
  C8. Construction fails with ConfigurationError when the pattern file is not found and
  when its content does not compile to a pattern, and succeeds with the compiled pattern
  stored under the event name otherwise. \<open>parse\<close> fails with SchemaError when the text
  column is not a column of the input. Either failure is the whole outcome of the call:
  no dataset is returned, and the caller's dataframe is left as it was.
\<close>

theorem configuration_and_schema_errors:
  "(fs (dir @ ''/'' @ REGEX_FILE) = None \<longrightarrow> init fs compile dir = Inl ConfigurationError) \<and>
   (fs (dir @ ''/'' @ REGEX_FILE) = Some txt \<and> compile txt = None \<longrightarrow>
      init fs compile dir = Inl ConfigurationError) \<and>
   (fs (dir @ ''/'' @ REGEX_FILE) = Some txt \<and> compile txt = Some p \<longrightarrow>
      init fs compile dir = Inr \<lparr>event_regex = Map.empty(EVENT_NAME \<mapsto> p)\<rparr>) \<and>
   (raw \<notin> set (columns df) \<longrightarrow> parse self df raw = (df, Inl (SchemaError raw)))"
  by (simp add: init_def load_regex_yaml_def parse_def getitem_def)

theorem configuration_and_schema_errors_witness:
  "init Map.empty (\<lambda>txt. None) ''/opt/clx/parsers'' = Inl ConfigurationError \<and>
   init (Map.empty(''/opt/clx/parsers/resources/splunk_notable_regex.yaml'' \<mapsto> ''(''))
     (\<lambda>txt. None) ''/opt/clx/parsers'' = Inl ConfigurationError \<and>
   parse demo_parser events_frame ''message'' = (events_frame, Inl (SchemaError ''message''))"
proof -
  have c: "''message'' \<notin> set (columns events_frame)"
    by (simp add: events_frame_def)
  have f: "(Map.empty(''/opt/clx/parsers/resources/splunk_notable_regex.yaml'' \<mapsto> ''(''))
      (''/opt/clx/parsers'' @ ''/'' @ REGEX_FILE) = Some ''(''"
    by (simp add: REGEX_FILE_def)
  have "init Map.empty (\<lambda>txt. None) ''/opt/clx/parsers'' = Inl ConfigurationError"
    using configuration_and_schema_errors
      [of Map.empty "''/opt/clx/parsers''" "\<lambda>txt. None" "''(''" demo_pattern "''message''"
        events_frame demo_parser]
    by simp
  moreover have "init (Map.empty(''/opt/clx/parsers/resources/splunk_notable_regex.yaml'' \<mapsto> ''(''))
     (\<lambda>txt. None) ''/opt/clx/parsers'' = Inl ConfigurationError"
    using configuration_and_schema_errors
      [of "Map.empty(''/opt/clx/parsers/resources/splunk_notable_regex.yaml'' \<mapsto> ''('')"
        "''/opt/clx/parsers''" "\<lambda>txt. None" "''(''" demo_pattern "''message''"
        events_frame demo_parser] f
    by blast
  moreover have "parse demo_parser events_frame ''message'' =
      (events_frame, Inl (SchemaError ''message''))"
    using configuration_and_schema_errors
      [of Map.empty "''/opt/clx/parsers''" "\<lambda>txt. None" "''(''" demo_pattern "''message''"
        events_frame demo_parser] c
    by blast
  ultimately show ?thesis by blast
qed

lemma nrows_groups:
  assumes "\<forall>r \<in> set (rows pd). is_Str (cell_at r ip)"
  shows "nrows (zero_group ip pd) + nrows (nonzero_group ip pd) = nrows pd"
  using length_partition_rows [OF assms]
  by (simp add: nrows_def zero_group_def nonzero_group_def partition_rows_def)

lemma process_ip_field_nrows:
  assumes "ip \<in> set (columns pd)" "ip @ ''2'' \<in> set (columns pd)"
    and strs: "\<forall>r \<in> set (rows pd). is_Str (cell_at r ip)"
  shows "\<exists>out. process_ip_field ip pd = Inr out \<and> nrows out = nrows pd"
  using length_partition_rows [OF strs]
  by (simp add: process_ip_field_result [OF assms(1,2) no_Num_Str [OF strs]] nrows_def
      partition_rows_def)

lemma process_ip_fields_nrows:
  assumes cols: "set ip_columns \<subseteq> set (columns pd)"
    and strs: "\<forall>r \<in> set (rows pd). is_Str (cell_at r ''src_ip'') \<and> is_Str (cell_at r ''dest_ip'')"
  shows "\<exists>out. process_ip_fields pd = Inr out \<and> nrows out = nrows pd"
proof -
  have nn: "no_Num ''src_ip'' pd" "no_Num ''dest_ip'' pd"
    using strs by (simp_all add: no_Num_Str)
  show ?thesis
    using length_final_order [OF strs]
    by (simp add: process_ip_fields_result [OF cols nn] nrows_def)
qed

text \<open>
  C1. Whenever \<open>parse\<close> returns a dataset, it has as many rows as the input: cleaning,
  extraction, null-filling and both rounds of the fallback merge neither drop nor repeat a
  row. It does return one when the text column exists and holds string data and the
  pattern has the four address groups. A round of the merge, on a dataset whose primary
  field is a string in every row, splits the rows into the zero-length group and the
  non-empty group, which together have the row count of the dataset, and returns a
  dataset of that row count; so do the two rounds together.
\<close>

theorem parse_preserves_row_count:
  "(\<forall>out. snd (parse self df raw) = Inr out \<longrightarrow> nrows out = nrows df) \<and>
   (parse_ready self df raw p \<longrightarrow> (\<exists>out. snd (parse self df raw) = Inr out)) \<and>
   (set ip_columns \<subseteq> set (columns pd) \<and>
    (\<forall>r \<in> set (rows pd). is_Str (cell_at r ''src_ip'') \<and> is_Str (cell_at r ''dest_ip'')) \<longrightarrow>
      (\<exists>out. process_ip_fields pd = Inr out \<and> nrows out = nrows pd)) \<and>
   (ip \<in> set (columns pd) \<and> ip @ ''2'' \<in> set (columns pd) \<and>
    (\<forall>r \<in> set (rows pd). is_Str (cell_at r ip)) \<longrightarrow>
      nrows (zero_group ip pd) + nrows (nonzero_group ip pd) = nrows pd \<and>
      (\<exists>out. process_ip_field ip pd = Inr out \<and> nrows out = nrows pd))"
proof (intro conjI allI impI)
  fix out
  assume out: "snd (parse self df raw) = Inr out"
  then obtain p' where "string_column raw df" "event_regex self EVENT_NAME = Some p'"
    "set ip_columns \<subseteq> set (groups p')"
    using parse_fails [of raw df self] by fastforce
  from parse_nrows [OF this] out show "nrows out = nrows df" by simp
next
  assume "parse_ready self df raw p"
  then show "\<exists>out. snd (parse self df raw) = Inr out"
    by (simp add: parse_ready_result)
next
  assume "set ip_columns \<subseteq> set (columns pd) \<and>
    (\<forall>r \<in> set (rows pd). is_Str (cell_at r ''src_ip'') \<and> is_Str (cell_at r ''dest_ip''))"
  then show "\<exists>out. process_ip_fields pd = Inr out \<and> nrows out = nrows pd"
    using process_ip_fields_nrows by blast
next
  assume a: "ip \<in> set (columns pd) \<and> ip @ ''2'' \<in> set (columns pd) \<and>
    (\<forall>r \<in> set (rows pd). is_Str (cell_at r ip))"
  then show "nrows (zero_group ip pd) + nrows (nonzero_group ip pd) = nrows pd"
    using nrows_groups by blast
  from a show "\<exists>out. process_ip_field ip pd = Inr out \<and> nrows out = nrows pd"
    using process_ip_field_nrows by blast
qed

theorem parse_preserves_row_count_witness:
  "(\<exists>out. snd (parse demo_parser events_frame ''raw'') = Inr out \<and> nrows out = 5) \<and>
   (\<exists>out. process_ip_fields merge_frame = Inr out \<and> nrows out = 3) \<and>
   nrows (zero_group ''src_ip'' merge_frame) + nrows (nonzero_group ''src_ip'' merge_frame) = 3"
proof -
  have n: "nrows events_frame = 5" "nrows merge_frame = 3"
    by (simp_all add: nrows_def events_frame_def merge_frame_def)
  have cols: "set ip_columns \<subseteq> set (columns merge_frame) \<and>
      (\<forall>r \<in> set (rows merge_frame).
         is_Str (cell_at r ''src_ip'') \<and> is_Str (cell_at r ''dest_ip''))"
    by (simp add: ip_columns_def merge_frame_def cell_at_def is_Str_def)
  have one: "''src_ip'' \<in> set (columns merge_frame) \<and>
      ''src_ip'' @ ''2'' \<in> set (columns merge_frame) \<and>
      (\<forall>r \<in> set (rows merge_frame). is_Str (cell_at r ''src_ip''))"
    by (simp add: merge_frame_def cell_at_def is_Str_def)
  note th = parse_preserves_row_count
    [of demo_parser events_frame "''raw''" demo_pattern merge_frame "''src_ip''"]
  from th demo_ready obtain out where "snd (parse demo_parser events_frame ''raw'') = Inr out"
    "nrows out = nrows events_frame"
    by blast
  moreover from th cols obtain out' where "process_ip_fields merge_frame = Inr out'"
    "nrows out' = nrows merge_frame"
    by blast
  moreover from th one
  have "nrows (zero_group ''src_ip'' merge_frame) + nrows (nonzero_group ''src_ip'' merge_frame)
      = nrows merge_frame"
    by blast
  ultimately show ?thesis
    using n by auto
qed

lemma fill_extract:
  "g \<in> set (groups p) \<Longrightarrow>
     fill_empty (cell_at (l, extract_row p v) g) = Str (captured p v g)"
  by (auto simp: fill_empty_def cell_at_def extract_row_def captured_def
      split: cell.splits option.splits)

lemma extraction_needs_strings:
  assumes "parse_raw_event self (fst (parse self df raw)) raw event = Inr pd"
  shows "string_column raw df"
proof (rule ccontr)
  assume ns: "\<not> string_column raw df"
  then obtain e where "bind_err (getitem df raw) str_replace_backslash = Inl e"
    using clean_step_fails by blast
  then have "fst (parse self df raw) = df"
    by (simp add: parse_def)
  with assms have "parse_raw_event self df raw event = Inr pd" by simp
  with ns show False
    by (auto simp: parse_raw_event_def getitem_def string_column_def no_Num_def
        split: option.splits if_splits)
qed

lemma extraction_of_parse:
  assumes pe: "parse_raw_event self (fst (parse self df raw)) raw EVENT_NAME = Inr pd"
  shows "\<exists>p. event_regex self EVENT_NAME = Some p \<and>
      pd = \<lparr>columns = groups p,
            rows = map (\<lambda>r. (fst r, extract_row p (clean_cell (cell_at r raw)))) (rows df)\<rparr> \<and>
      fillna pd (Str []) = \<lparr>columns = groups p, rows = map (parsed_row p raw) (rows df)\<rparr>"
    and "snd (parse self df raw) = process_ip_fields (fillna pd (Str []))"
proof -
  have sc: "string_column raw df"
    using pe by (rule extraction_needs_strings)
  define C where "C = \<lparr>columns = columns df, rows = map (cleaned_row raw) (rows df)\<rparr>"
  have par: "parse self df raw =
      (C, bind_err (parse_raw_event self C raw EVENT_NAME)
            (\<lambda>parsed_dataframe. process_ip_fields (fillna parsed_dataframe (Str []))))"
    by (simp add: parse_def clean_step [OF sc] Let_def C_def)
  with pe have pe': "parse_raw_event self C raw EVENT_NAME = Inr pd" by simp
  show "snd (parse self df raw) = process_ip_fields (fillna pd (Str []))"
    by (simp add: par pe')
  from pe' obtain p where ev: "event_regex self EVENT_NAME = Some p"
    by (auto simp: parse_raw_event_def split: option.splits)
  have pd: "pd = \<lparr>columns = groups p,
            rows = map (\<lambda>r. (fst r, extract_row p (clean_cell (cell_at r raw)))) (rows df)\<rparr>"
    using pe' sc
    by (auto simp: parse_raw_event_def ev getitem_def C_def string_column_def o_def
        split: if_splits)
  have "fillna pd (Str []) = \<lparr>columns = groups p, rows = map (parsed_row p raw) (rows df)\<rparr>"
    using extract_fill [OF ev sc] pe' by (simp add: C_def)
  with ev pd show "\<exists>p. event_regex self EVENT_NAME = Some p \<and>
      pd = \<lparr>columns = groups p,
            rows = map (\<lambda>r. (fst r, extract_row p (clean_cell (cell_at r raw)))) (rows df)\<rparr> \<and>
      fillna pd (Str []) = \<lparr>columns = groups p, rows = map (parsed_row p raw) (rows df)\<rparr>"
    by blast
qed

lemma extraction_exists:
  assumes "parse_ready self df raw p"
  shows "\<exists>pd. parse_raw_event self (fst (parse self df raw)) raw EVENT_NAME = Inr pd"
  using assms
  by (auto simp: parse_ready_result [OF assms] parse_ready_def parse_raw_event_def getitem_def
      string_column_def no_Num_def)

lemma output_cell_of_extraction:
  assumes gr: "set ip_columns \<subseteq> set (groups p)"
    and c: "c \<in> set (groups p)" "c \<notin> set dropped_columns"
  shows "cell_at (final_row (parsed_row p raw x)) c =
     (if c = ''src_ip'' \<and> fill_empty (cell_at (l, extract_row p (clean_cell (cell_at x raw))) ''src_ip'') = Str []
      then fill_empty (cell_at (l, extract_row p (clean_cell (cell_at x raw))) ''src_ip2'')
      else if c = ''dest_ip'' \<and> fill_empty (cell_at (l, extract_row p (clean_cell (cell_at x raw))) ''dest_ip'') = Str []
      then fill_empty (cell_at (l, extract_row p (clean_cell (cell_at x raw))) ''dest_ip2'')
      else fill_empty (cell_at (l, extract_row p (clean_cell (cell_at x raw))) c))"
proof -
  from gr have four: "''src_ip'' \<in> set (groups p)" "''src_ip2'' \<in> set (groups p)"
    "''dest_ip'' \<in> set (groups p)" "''dest_ip2'' \<in> set (groups p)"
    by (simp_all add: ip_columns_def)
  show ?thesis
    using c
    by (simp add: cell_at_final_row cell_at_parsed_row zero_len_def fill_extract four)
qed

lemma demo_user_ready: "parse_ready demo_user_parser events_frame ''raw'' demo_user_pattern"
  by (simp add: parse_ready_def string_column_def events_frame_def no_Num_def cell_at_def
      demo_user_parser_def demo_user_pattern_def demo_groups_def ip_columns_def)

lemma demo_user_table:
  "map_sum id (\<lambda>d. (columns d, table d)) (snd (parse demo_user_parser events_frame ''raw'')) =
     Inr ([''user'', ''src_ip'', ''dest_ip''],
          [(0, [Str [], Str ''10.0.0.1'', Str ''10.0.0.9'']),
           (4, [Str [], Str ''10.0.0.1'', Str ''10.0.0.2'']),
           (1, [Str [], Str [], Str []]),
           (2, [Str [], Str ''10.0.0.3'', Str ''10.0.0.4'']),
           (3, [Str [], Str [], Str []])])"
  by code_simp

text \<open>
  C3. Every value of every column of the dataset that \<open>parse\<close> returns is a string, never
  the null marker. The null-filling step is blanket: in the frame that \<open>fillna\<close> returns,
  every null cell of every column has become the empty string and every other cell is as
  it was; the merge that follows brings no null back: run on a dataset whose cells are all
  strings, it returns a dataset whose cells are all strings. And this is what \<open>parse\<close>
  does with the frame \<open>ex\<close> that the extraction returns for the cleaned dataset: its result
  is that of the merge run on \<open>ex\<close> null-filled with the empty string; the dataset it
  returns has as many rows as \<open>ex\<close>, and its rows show, each under the index label of its
  row of \<open>ex\<close> and in every output column, the field of that row with a missing value
  replaced by the empty string, and nothing else, except that a primary address field
  that is empty after this replacement shows the alternate, with a missing value replaced
  by the empty string as well. The extraction does return a frame whenever the text column
  holds string data and the parser has its pattern.
\<close>

theorem parse_output_all_strings:
  "(\<forall>out. snd (parse self df raw) = Inr out \<longrightarrow>
      (\<forall>r \<in> set (rows out). \<forall>c \<in> set (columns out). is_Str (cell_at r c))) \<and>
   columns (fillna d (Str [])) = columns d \<and>
   list_all2 (\<lambda>r r'. fst r' = fst r \<and>
        (\<forall>c \<in> set (columns d). cell_at r' c = (if cell_at r c = Null then Str [] else cell_at r c)))
      (rows d) (rows (fillna d (Str []))) \<and>
   (\<forall>out. (\<forall>r \<in> set (rows pd). \<forall>c \<in> set (columns pd). is_Str (cell_at r c)) \<and>
      process_ip_fields pd = Inr out \<longrightarrow>
      (\<forall>r \<in> set (rows out). \<forall>c \<in> set (columns out). is_Str (cell_at r c))) \<and>
   (parse_ready self df raw p \<longrightarrow> (\<exists>out. snd (parse self df raw) = Inr out)) \<and>
   (parse_ready self df raw p \<longrightarrow>
      (\<exists>ex. parse_raw_event self (fst (parse self df raw)) raw EVENT_NAME = Inr ex)) \<and>
   (\<forall>ex. parse_raw_event self (fst (parse self df raw)) raw EVENT_NAME = Inr ex \<longrightarrow>
      snd (parse self df raw) = process_ip_fields (fillna ex (Str [])) \<and>
      (\<forall>out. snd (parse self df raw) = Inr out \<longrightarrow>
         nrows out = nrows ex \<and>
         mset (table out) =
           mset (map (\<lambda>r. (fst r, map (\<lambda>c.
                   if c = ''src_ip'' \<and> fill_empty (cell_at r ''src_ip'') = Str []
                   then fill_empty (cell_at r ''src_ip2'')
                   else if c = ''dest_ip'' \<and> fill_empty (cell_at r ''dest_ip'') = Str []
                   then fill_empty (cell_at r ''dest_ip2'')
                   else fill_empty (cell_at r c)) (columns out))) (rows ex))))"
proof (intro conjI allI impI ballI)
  fix out r c
  assume out: "snd (parse self df raw) = Inr out" and r: "r \<in> set (rows out)"
    and c: "c \<in> set (columns out)"
  from parse_Inr_ready [OF out] obtain p' where rdy: "parse_ready self df raw p'" ..
  then have gr: "set ip_columns \<subseteq> set (groups p')"
    by (auto simp: parse_ready_def list_all_iff)
  from parse_ready_result [OF rdy] out
  have o: "out = \<lparr>columns = filter (\<lambda>c. c \<notin> set dropped_columns) (groups p'),
          rows = map final_row (final_order (map (parsed_row p' raw) (rows df)))\<rparr>"
    by simp
  from r o obtain x where "r = final_row (parsed_row p' raw x)"
    using final_rows_of_parsed [OF gr, of r raw "rows df"] by auto
  moreover from c o have "c \<in> set (groups p')" "c \<notin> set dropped_columns" by auto
  ultimately show "is_Str (cell_at r c)"
    using final_parsed_cell_Str [OF gr] by simp
next
  show "columns (fillna d (Str [])) = columns d" by (simp add: fillna_def)
next
  show "list_all2 (\<lambda>r r'. fst r' = fst r \<and>
        (\<forall>c \<in> set (columns d). cell_at r' c = (if cell_at r c = Null then Str [] else cell_at r c)))
      (rows d) (rows (fillna d (Str [])))"
    by (auto simp: fillna_def list_all2_map2 cell_at_def intro!: list_all2_refl)
next
  fix out r c
  assume a: "(\<forall>r \<in> set (rows pd). \<forall>c \<in> set (columns pd). is_Str (cell_at r c)) \<and>
      process_ip_fields pd = Inr out"
    and r: "r \<in> set (rows out)" and c: "c \<in> set (columns out)"
  then show "is_Str (cell_at r c)"
    using merge_keeps_strings by blast
next
  assume "parse_ready self df raw p"
  then show "\<exists>out. snd (parse self df raw) = Inr out"
    by (simp add: parse_ready_result)
next
  assume "parse_ready self df raw p"
  then show "\<exists>ex. parse_raw_event self (fst (parse self df raw)) raw EVENT_NAME = Inr ex"
    by (rule extraction_exists)
next
  fix ex
  assume "parse_raw_event self (fst (parse self df raw)) raw EVENT_NAME = Inr ex"
  then show "snd (parse self df raw) = process_ip_fields (fillna ex (Str []))"
    by (rule extraction_of_parse(2))
next
  fix ex out
  assume pe: "parse_raw_event self (fst (parse self df raw)) raw EVENT_NAME = Inr ex"
    and out: "snd (parse self df raw) = Inr out"
  from extraction_of_parse(1) [OF pe] obtain q where
    ev: "event_regex self EVENT_NAME = Some q"
    and ex: "ex = \<lparr>columns = groups q,
            rows = map (\<lambda>r. (fst r, extract_row q (clean_cell (cell_at r raw)))) (rows df)\<rparr>"
    by blast
  from parse_Inr_ready [OF out] obtain p' where rdy': "parse_ready self df raw p'" ..
  with ev have rdy: "parse_ready self df raw q"
    by (simp add: parse_ready_def)
  then have gr: "set ip_columns \<subseteq> set (groups q)"
    by (auto simp: parse_ready_def list_all_iff)
  from parse_ready_result [OF rdy] out
  have o: "out = \<lparr>columns = filter (\<lambda>c. c \<notin> set dropped_columns) (groups q),
          rows = map final_row (final_order (map (parsed_row q raw) (rows df)))\<rparr>"
    by simp
  have len: "length (final_order (map (parsed_row q raw) (rows df))) = length (rows df)"
    using length_final_order [OF parsed_rows_Str [OF gr], of raw "rows df"] by simp
  show "nrows out = nrows ex"
    by (simp add: o ex nrows_def len)
next
  fix ex out
  assume pe: "parse_raw_event self (fst (parse self df raw)) raw EVENT_NAME = Inr ex"
    and out: "snd (parse self df raw) = Inr out"
  from extraction_of_parse(1) [OF pe] obtain q where
    ev: "event_regex self EVENT_NAME = Some q"
    and ex: "ex = \<lparr>columns = groups q,
            rows = map (\<lambda>r. (fst r, extract_row q (clean_cell (cell_at r raw)))) (rows df)\<rparr>"
    by blast
  from parse_Inr_ready [OF out] obtain p' where rdy': "parse_ready self df raw p'" ..
  with ev have rdy: "parse_ready self df raw q"
    by (simp add: parse_ready_def)
  then have gr: "set ip_columns \<subseteq> set (groups q)"
    by (auto simp: parse_ready_def list_all_iff)
  define cs where "cs = filter (\<lambda>c. c \<notin> set dropped_columns) (groups q)"
  from parse_ready_result [OF rdy] out
  have o: "out = \<lparr>columns = cs,
          rows = map final_row (final_order (map (parsed_row q raw) (rows df)))\<rparr>"
    by (simp add: cs_def)
  have ms: "mset (final_order (map (parsed_row q raw) (rows df))) =
      mset (map (parsed_row q raw) (rows df))"
    by (rule mset_final_order [OF parsed_rows_Str [OF gr]])
  have cell: "map (cell_at (final_row (parsed_row q raw x))) cs =
      map (\<lambda>c.
        if c = ''src_ip'' \<and>
           fill_empty (cell_at (fst x, extract_row q (clean_cell (cell_at x raw))) ''src_ip'') = Str []
        then fill_empty (cell_at (fst x, extract_row q (clean_cell (cell_at x raw))) ''src_ip2'')
        else if c = ''dest_ip'' \<and>
           fill_empty (cell_at (fst x, extract_row q (clean_cell (cell_at x raw))) ''dest_ip'') = Str []
        then fill_empty (cell_at (fst x, extract_row q (clean_cell (cell_at x raw))) ''dest_ip2'')
        else fill_empty (cell_at (fst x, extract_row q (clean_cell (cell_at x raw))) c)) cs" for x
  proof (rule map_cong [OF refl])
    fix c assume "c \<in> set cs"
    then have "c \<in> set (groups q)" "c \<notin> set dropped_columns"
      by (simp_all add: cs_def)
    then show "cell_at (final_row (parsed_row q raw x)) c =
      (if c = ''src_ip'' \<and>
           fill_empty (cell_at (fst x, extract_row q (clean_cell (cell_at x raw))) ''src_ip'') = Str []
        then fill_empty (cell_at (fst x, extract_row q (clean_cell (cell_at x raw))) ''src_ip2'')
        else if c = ''dest_ip'' \<and>
           fill_empty (cell_at (fst x, extract_row q (clean_cell (cell_at x raw))) ''dest_ip'') = Str []
        then fill_empty (cell_at (fst x, extract_row q (clean_cell (cell_at x raw))) ''dest_ip2'')
        else fill_empty (cell_at (fst x, extract_row q (clean_cell (cell_at x raw))) c))"
      by (rule output_cell_of_extraction [OF gr])
  qed
  have "mset (table out) =
      image_mset (\<lambda>r. (fst r, map (cell_at r) cs))
        (image_mset final_row (mset (final_order (map (parsed_row q raw) (rows df)))))"
    by (simp add: table_def o image_mset.compositionality o_def flip: mset_map)
  also have "\<dots> = image_mset (\<lambda>x. (fst x, map (cell_at (final_row (parsed_row q raw x))) cs))
      (mset (rows df))"
    by (simp add: ms image_mset.compositionality o_def parsed_row_def)
  finally show "mset (table out) =
      mset (map (\<lambda>r. (fst r, map (\<lambda>c.
                   if c = ''src_ip'' \<and> fill_empty (cell_at r ''src_ip'') = Str []
                   then fill_empty (cell_at r ''src_ip2'')
                   else if c = ''dest_ip'' \<and> fill_empty (cell_at r ''dest_ip'') = Str []
                   then fill_empty (cell_at r ''dest_ip2'')
                   else fill_empty (cell_at r c)) (columns out))) (rows ex))"
    by (simp add: ex o cell o_def)
qed

theorem parse_output_all_strings_witness:
  "\<exists>ex out.
     parse_raw_event demo_user_parser (fst (parse demo_user_parser events_frame ''raw'')) ''raw''
       EVENT_NAME = Inr ex \<and>
     process_ip_fields (fillna ex (Str [])) = Inr out \<and>
     snd (parse demo_user_parser events_frame ''raw'') = Inr out \<and>
     nrows ex = 5 \<and> nrows out = 5 \<and>
     columns out = [''user'', ''src_ip'', ''dest_ip''] \<and>
     table out =
       [(0, [Str [], Str ''10.0.0.1'', Str ''10.0.0.9'']),
        (4, [Str [], Str ''10.0.0.1'', Str ''10.0.0.2'']),
        (1, [Str [], Str [], Str []]),
        (2, [Str [], Str ''10.0.0.3'', Str ''10.0.0.4'']),
        (3, [Str [], Str [], Str []])] \<and>
     list_all (\<lambda>r. list_all (\<lambda>c. is_Str (cell_at r c)) (columns out)) (rows out)"
proof -
  note inst = parse_output_all_strings
    [of demo_user_parser events_frame "''raw''" events_frame merge_frame demo_user_pattern]
  from inst demo_user_ready obtain out where
    out: "snd (parse demo_user_parser events_frame ''raw'') = Inr out"
    by blast
  from inst demo_user_ready obtain ex where
    ex: "parse_raw_event demo_user_parser (fst (parse demo_user_parser events_frame ''raw''))
          ''raw'' EVENT_NAME = Inr ex"
    by blast
  from inst ex have run: "snd (parse demo_user_parser events_frame ''raw'') =
      process_ip_fields (fillna ex (Str []))"
    by blast
  from inst ex out have n: "nrows out = nrows ex"
    by blast
  from inst out have strs: "\<forall>r \<in> set (rows out). \<forall>c \<in> set (columns out). is_Str (cell_at r c)"
    by blast
  from demo_user_table out have tab: "columns out = [''user'', ''src_ip'', ''dest_ip'']"
    "table out =
       [(0, [Str [], Str ''10.0.0.1'', Str ''10.0.0.9'']),
        (4, [Str [], Str ''10.0.0.1'', Str ''10.0.0.2'']),
        (1, [Str [], Str [], Str []]),
        (2, [Str [], Str ''10.0.0.3'', Str ''10.0.0.4'']),
        (3, [Str [], Str [], Str []])]"
    by simp_all
  from tab(2) have "length (table out) = 5" by simp
  then have five: "nrows out = 5"
    by (simp add: table_def nrows_def)
  show ?thesis
    using ex out run n five tab strs
    by (intro exI [of _ ex] exI [of _ out]) (simp add: list_all_iff)
qed

end
